theory Spec2Isabelle
  imports Complex_Main "HOL-Library.AList" "HOL-Library.Sublist"
begin

section \<open>Python values, exceptions and dictionaries\<close>

text \<open>
  Both jobs are Python. An exception is a value carrying its class name and its message
  (\<open>str(e)\<close>); every exception modelled here is a subclass of \<open>Exception\<close>, so an
  \<open>except Exception\<close> clause catches it. A function that may raise returns
  \<open>exn + 'a\<close>, with \<open>Inl\<close> for the exception.
\<close>

datatype exn = Exn (exn_class: string) (exn_msg: string)

definition exn_str :: "exn \<Rightarrow> string" where
  "exn_str e = exn_msg e"

text \<open>
  The values a warehouse row holds, as the database driver hands them to Python:
  \<open>None\<close> for SQL NULL, \<open>bool\<close>, \<open>int\<close>, \<open>float\<close>, \<open>decimal.Decimal\<close> for
  NUMERIC columns, and \<open>str\<close>. Binary floating point and \<open>Decimal\<close> are the type
  parameters \<open>'f\<close> and \<open>'d\<close>: what is known of them is their tag, and the conversions of
  the interpreter that the code calls are parameters, collected in a record.
\<close>

datatype ('f, 'd) pyval =
    PNone
  | PBool bool
  | PInt int
  | PFloat 'f
  | PDecimal 'd
  | PStr string

record ('f, 'd) py_builtins =
  float_of_decimal :: "'d \<Rightarrow> 'f"
  str_of_float :: "'f \<Rightarrow> string"
  str_of_decimal :: "'d \<Rightarrow> string"

fun is_float :: "('f, 'd) pyval \<Rightarrow> bool" where
  "is_float (PFloat x) = True"
| "is_float v = False"

fun is_decimal :: "('f, 'd) pyval \<Rightarrow> bool" where
  "is_decimal (PDecimal x) = True"
| "is_decimal v = False"

text \<open>\<open>str(n)\<close> of an integer: decimal digits, with a minus sign when negative.\<close>

definition digit_char :: "nat \<Rightarrow> char" where
  "digit_char n = ''0123456789'' ! n"

fun str_of_nat :: "nat \<Rightarrow> string" where
  "str_of_nat n = (if n < 10 then [digit_char n] else str_of_nat (n div 10) @ [digit_char (n mod 10)])"

definition str_of_int :: "int \<Rightarrow> string" where
  "str_of_int i = (if i < 0 then CHR ''-'' # str_of_nat (nat (- i)) else str_of_nat (nat i))"

text \<open>What an f-string substitutes for \<open>{v}\<close>: \<open>str(v)\<close>.\<close>

fun py_str :: "('f, 'd) py_builtins \<Rightarrow> ('f, 'd) pyval \<Rightarrow> string" where
  "py_str ops PNone = ''None''"
| "py_str ops (PBool b) = (if b then ''True'' else ''False'')"
| "py_str ops (PInt i) = str_of_int i"
| "py_str ops (PFloat x) = str_of_float ops x"
| "py_str ops (PDecimal x) = str_of_decimal ops x"
| "py_str ops (PStr s) = s"

text \<open>
  A Python \<open>dict\<close> with string keys keeps its keys in insertion order and holds each key
  once: an association list with distinct keys. \<open>d[k] = v\<close> replaces the value in place
  when \<open>k\<close> is present and appends the pair otherwise, which is \<open>AList.update\<close>.
\<close>

type_synonym 'v dict = "(string \<times> 'v) list"

definition dict_set :: "string \<Rightarrow> 'v \<Rightarrow> 'v dict \<Rightarrow> 'v dict" where
  "dict_set k v d = AList.update k v d"

definition dict_keys :: "'v dict \<Rightarrow> string list" where
  "dict_keys d = map fst d"

definition dict_get :: "'v dict \<Rightarrow> string \<Rightarrow> 'v \<Rightarrow> 'v" where
  "dict_get d k dflt = (case map_of d k of None \<Rightarrow> dflt | Some v \<Rightarrow> v)"

text \<open>\<open>dict(pairs)\<close> inserts the pairs in order; \<open>d.update(other)\<close> inserts the items of \<open>other\<close>.\<close>

definition dict_of :: "(string \<times> 'v) list \<Rightarrow> 'v dict" where
  "dict_of pairs = fold (\<lambda>(k, v). dict_set k v) pairs []"

definition dict_update :: "'v dict \<Rightarrow> 'v dict \<Rightarrow> 'v dict" where
  "dict_update d other = fold (\<lambda>(k, v). dict_set k v) other d"

text \<open>\<open>s.endswith(suf)\<close>.\<close>

definition endswith :: "string \<Rightarrow> string \<Rightarrow> bool" where
  "endswith s suf = (length suf \<le> length s \<and> drop (length s - length suf) s = suf)"

text \<open>
  \<open>s.replace(old, new)\<close>: every occurrence of \<open>old\<close>, found from the left and not
  overlapping, is replaced. With an empty \<open>old\<close>, \<open>new\<close> is inserted before every
  character and at the end.
\<close>

function py_replace :: "string \<Rightarrow> string \<Rightarrow> string \<Rightarrow> string" where
  "py_replace old new s =
     (if old = [] then new @ concat (map (\<lambda>c. c # new) s)
      else if s = [] then []
      else if take (length old) s = old then new @ py_replace old new (drop (length old) s)
      else hd s # py_replace old new (tl s))"
  by pat_completeness auto
termination
  by (relation "measure (\<lambda>(old, new, s). length s)") auto

declare py_replace.simps [simp del]

text \<open>
  \<open>s.lower()\<close> on the characters this model has: the ASCII capitals map to their small
  letters, every other character is unchanged.
\<close>

definition lower_char :: "char \<Rightarrow> char" where
  "lower_char c =
     (case map_of (zip ''ABCDEFGHIJKLMNOPQRSTUVWXYZ'' ''abcdefghijklmnopqrstuvwxyz'') c of
        None \<Rightarrow> c | Some l \<Rightarrow> l)"

definition py_lower :: "string \<Rightarrow> string" where
  "py_lower s = map lower_char s"


section \<open>The extractor: \<open>daily_bot_stats_extract.py\<close>\<close>

subsection \<open>The world the extractor runs in\<close>

text \<open>
  The warehouse is outside the program. What a run observes of it is: whether
  \<open>psycopg2.connect\<close> and \<open>conn.cursor()\<close> raise, for each of the four queries whether
  executing or fetching raises or which result set comes back (the column names of
  \<open>cursor.description\<close> and the rows, each row a tuple of values), and whether the two
  \<open>close\<close> calls raise.
\<close>

datatype ('f, 'd) query_result =
    QueryError exn
  | ResultSet (rs_cols: "string list") (rs_rows: "('f, 'd) pyval list list")

record ('f, 'd) warehouse =
  connect_outcome :: "exn option"
  cursor_outcome :: "exn option"
  static_metrics_result :: "('f, 'd) query_result"
  churn_result :: "('f, 'd) query_result"
  coupon_result :: "('f, 'd) query_result"
  signup_result :: "('f, 'd) query_result"
  cursor_close_outcome :: "exn option"
  conn_close_outcome :: "exn option"

text \<open>
  The rest of the environment: the process environment variables, the interpreter's
  conversions, and whether the asynchronous invocation of the notifier, the creation of
  the SNS client and the SNS publish call raise.
\<close>

record ('f, 'd) extractor_env =
  environ :: "string \<rightharpoonup> string"
  builtins :: "('f, 'd) py_builtins"
  warehouse :: "('f, 'd) warehouse"
  invoke_outcome :: "exn option"
  sns_client_outcome :: "exn option"
  sns_publish_outcome :: "exn option"

text \<open>
  The state a run changes: the warehouse connection, the log, the payloads handed to the
  notifier and the messages published to the failure topic (topic, subject, message).
\<close>

datatype conn_state = NotConnected | ConnOpen | ConnClosed

datatype log_level = INFO | ERROR

record ('f, 'd) extractor_state =
  conn :: conn_state
  log :: "(log_level \<times> string) list"
  invoked :: "('f, 'd) pyval dict list"
  published :: "(string \<times> string \<times> string) list"

definition initial_state :: "('f, 'd) extractor_state" where
  "initial_state = \<lparr>conn = NotConnected, log = [], invoked = [], published = []\<rparr>"

definition log_msg :: "log_level \<Rightarrow> string \<Rightarrow> ('f, 'd) extractor_state \<Rightarrow> ('f, 'd) extractor_state" where
  "log_msg lvl m s = s\<lparr>log := log s @ [(lvl, m)]\<rparr>"

text \<open>\<open>os.environ[k]\<close> raises \<open>KeyError\<close> on a missing variable; its \<open>str\<close> is the quoted key.\<close>

definition key_error :: "string \<Rightarrow> exn" where
  "key_error k = Exn ''KeyError'' ([CHR 0x27] @ k @ [CHR 0x27])"

definition environ_get :: "(string \<rightharpoonup> string) \<Rightarrow> string \<Rightarrow> exn + string" where
  "environ_get env k = (case env k of None \<Rightarrow> Inl (key_error k) | Some v \<Rightarrow> Inr v)"

text \<open>The first of a list of variables, read in order, that is not set.\<close>

definition first_missing :: "(string \<rightharpoonup> string) \<Rightarrow> string list \<Rightarrow> string option" where
  "first_missing env ks = find (\<lambda>k. env k = None) ks"

subsection \<open>\<open>get_data_from_redshift\<close>\<close>

text \<open>
  Lines 25 to 35: the five connection parameters are read from the environment in the
  order written, the connection is opened, then the cursor. Any exception of the three
  steps is replaced by a \<open>RuntimeError\<close> carrying its text.
\<close>

definition open_connection ::
  "('f, 'd) extractor_env \<Rightarrow> ('f, 'd) extractor_state \<Rightarrow> ('f, 'd) extractor_state \<times> (exn + unit)" where
  "open_connection w s =
     (case first_missing (environ w) [''DBNAME'', ''USER'', ''PASSWORD'', ''HOST'', ''PORT''] of
        Some k \<Rightarrow> (s, Inl (key_error k))
      | None \<Rightarrow>
          (case connect_outcome (warehouse w) of
             Some e \<Rightarrow> (s, Inl e)
           | None \<Rightarrow>
               (case cursor_outcome (warehouse w) of
                  Some e \<Rightarrow> (s\<lparr>conn := ConnOpen\<rparr>, Inl e)
                | None \<Rightarrow> (s\<lparr>conn := ConnOpen\<rparr>, Inr ()))))"

text \<open>
  Lines 58 to 61 and 123 to 126: \<open>fetchone\<close> gives the first row, or \<open>None\<close> when there
  is none, and then \<open>zip(cols, None)\<close> raises \<open>TypeError\<close>. \<open>zip\<close> stops at the shorter
  of its arguments.
\<close>

definition fetch_one_into ::
  "('f, 'd) query_result \<Rightarrow> ('f, 'd) pyval dict \<Rightarrow> exn + ('f, 'd) pyval dict" where
  "fetch_one_into q result =
     (case q of
        QueryError e \<Rightarrow> Inl e
      | ResultSet cols rows \<Rightarrow>
          (case rows of
             [] \<Rightarrow> Inl (Exn ''TypeError'' ''zip argument #2 must support iteration'')
           | row # rest \<Rightarrow> Inr (dict_update result (dict_of (zip cols row)))))"

text \<open>
  Line 161: \<open>float(rate) if isinstance(rate, Decimal) else rate\<close>.
\<close>

fun normalize_rate :: "('f, 'd) py_builtins \<Rightarrow> ('f, 'd) pyval \<Rightarrow> ('f, 'd) pyval" where
  "normalize_rate ops (PDecimal x) = PFloat (float_of_decimal ops x)"
| "normalize_rate ops v = v"

text \<open>
  Lines 156 to 161, the body of the loop over the coupon rows: the row is unpacked into
  five names (\<open>ValueError\<close> when it does not have five values), then four entries are
  stored.
\<close>

definition unpack_error :: "nat \<Rightarrow> nat \<Rightarrow> exn" where
  "unpack_error expected got =
     (if got < expected
      then Exn ''ValueError'' (''not enough values to unpack (expected '' @ str_of_nat expected
             @ '', got '' @ str_of_nat got @ '')'')
      else Exn ''ValueError'' (''too many values to unpack (expected '' @ str_of_nat expected @ '')''))"

fun flatten_coupon_row ::
  "('f, 'd) py_builtins \<Rightarrow> ('f, 'd) pyval list \<Rightarrow> ('f, 'd) pyval dict \<Rightarrow> exn + ('f, 'd) pyval dict" where
  "flatten_coupon_row ops [code, active, trials, convs, rate] result =
     Inr (dict_set (py_str ops code @ ''_conversion_rate'') (normalize_rate ops rate)
           (dict_set (py_str ops code @ ''_total_conversions'') convs
             (dict_set (py_str ops code @ ''_total_trials'') trials
               (dict_set (py_str ops code @ ''_coupon_active_subscriptions'') active result))))"
| "flatten_coupon_row ops row result = Inl (unpack_error 5 (length row))"

fun flatten_coupons ::
  "('f, 'd) py_builtins \<Rightarrow> ('f, 'd) pyval list list \<Rightarrow> ('f, 'd) pyval dict \<Rightarrow> exn + ('f, 'd) pyval dict" where
  "flatten_coupons ops [] result = Inr result"
| "flatten_coupons ops (row # rows) result =
     (case flatten_coupon_row ops row result of
        Inl e \<Rightarrow> Inl e
      | Inr result' \<Rightarrow> flatten_coupons ops rows result')"

text \<open>Lines 206 to 209, the loop over the signup rows, each unpacked into four names.\<close>

fun flatten_signup_row ::
  "('f, 'd) py_builtins \<Rightarrow> ('f, 'd) pyval list \<Rightarrow> ('f, 'd) pyval dict \<Rightarrow> exn + ('f, 'd) pyval dict" where
  "flatten_signup_row ops [period, without_coupon, with_coupon, total'] result =
     Inr (dict_set (py_str ops period @ ''_total_new_signups'') total'
           (dict_set (py_str ops period @ ''_new_signups_with_coupon'') with_coupon
             (dict_set (py_str ops period @ ''_new_signups_without_coupon'') without_coupon result)))"
| "flatten_signup_row ops row result = Inl (unpack_error 4 (length row))"

fun flatten_signups ::
  "('f, 'd) py_builtins \<Rightarrow> ('f, 'd) pyval list list \<Rightarrow> ('f, 'd) pyval dict \<Rightarrow> exn + ('f, 'd) pyval dict" where
  "flatten_signups ops [] result = Inr result"
| "flatten_signups ops (row # rows) result =
     (case flatten_signup_row ops row result of
        Inl e \<Rightarrow> Inl e
      | Inr result' \<Rightarrow> flatten_signups ops rows result')"

text \<open>
  Lines 37 to 209: the four queries in order, each filling \<open>result\<close>. None of them touches
  the connection state, so this part is a function of the environment alone.
\<close>

definition run_queries :: "('f, 'd) extractor_env \<Rightarrow> exn + ('f, 'd) pyval dict" where
  "run_queries w =
     (case fetch_one_into (static_metrics_result (warehouse w)) [] of
        Inl e \<Rightarrow> Inl e
      | Inr r1 \<Rightarrow>
     (case fetch_one_into (churn_result (warehouse w)) r1 of
        Inl e \<Rightarrow> Inl e
      | Inr r2 \<Rightarrow>
     (case coupon_result (warehouse w) of
        QueryError e \<Rightarrow> Inl e
      | ResultSet ccols crows \<Rightarrow>
     (case flatten_coupons (builtins w) crows r2 of
        Inl e \<Rightarrow> Inl e
      | Inr r3 \<Rightarrow>
     (case signup_result (warehouse w) of
        QueryError e \<Rightarrow> Inl e
      | ResultSet scols srows \<Rightarrow> flatten_signups (builtins w) srows r3)))))"

text \<open>
  The whole function. There is no \<open>try\<close> around the queries: an exception leaves the
  function at once, and \<open>cursor.close()\<close> and \<open>conn.close()\<close> on lines 211 and 212 run only
  when everything before them returned. A \<open>close\<close> that raises leaves the connection as
  it was.
\<close>

definition get_data_from_redshift ::
  "('f, 'd) extractor_env \<Rightarrow> ('f, 'd) extractor_state
     \<Rightarrow> ('f, 'd) extractor_state \<times> (exn + ('f, 'd) pyval dict)" where
  "get_data_from_redshift w s =
     (case open_connection w s of
        (s1, Inl e) \<Rightarrow>
          (s1, Inl (Exn ''RuntimeError'' (''Error connecting to Redshift: '' @ exn_str e)))
      | (s1, Inr u) \<Rightarrow>
          (case run_queries w of
             Inl e \<Rightarrow> (s1, Inl e)
           | Inr result \<Rightarrow>
               (case cursor_close_outcome (warehouse w) of
                  Some e \<Rightarrow> (s1, Inl e)
                | None \<Rightarrow>
                    (case conn_close_outcome (warehouse w) of
                       Some e \<Rightarrow> (s1, Inl e)
                     | None \<Rightarrow> (s1\<lparr>conn := ConnClosed\<rparr>, Inr result)))))"

subsection \<open>\<open>send_sns_notification\<close> and \<open>lambda_handler\<close>\<close>

text \<open>
  Lines 215 to 226. The client is created outside the \<open>try\<close>. Inside it, the topic is
  read from the environment and the message is published; an exception of either is
  logged and raised again by the bare \<open>raise\<close>.
\<close>

definition send_sns_notification ::
  "('f, 'd) extractor_env \<Rightarrow> string \<Rightarrow> ('f, 'd) extractor_state
     \<Rightarrow> ('f, 'd) extractor_state \<times> (exn + unit)" where
  "send_sns_notification w message s =
     (case sns_client_outcome w of
        Some e \<Rightarrow> (s, Inl e)
      | None \<Rightarrow>
          (case (case environ_get (environ w) ''SNS_TOPIC_ARN'' of
                   Inl e \<Rightarrow> Inl e
                 | Inr arn \<Rightarrow> (case sns_publish_outcome w of Some e \<Rightarrow> Inl e | None \<Rightarrow> Inr arn)) of
             Inr arn \<Rightarrow>
               (log_msg INFO ''SNS notification sent successfully.''
                  (s\<lparr>published := published s @
                      [(arn, ''Slack Notification'',
                        ''Lambda job daily_bot_stats_extract failed: '' @ message)]\<rparr>),
                Inr ())
           | Inl e \<Rightarrow> (log_msg ERROR (''Failed to send SNS notification: '' @ exn_str e) s, Inl e)))"

text \<open>
  \<open>json.dumps\<close> of the mapping: a \<open>Decimal\<close> value is not serialisable and raises
  \<open>TypeError\<close>; every other value of the model is. The payload is kept as the mapping.
\<close>

definition json_dumps :: "('f, 'd) pyval dict \<Rightarrow> exn + ('f, 'd) pyval dict" where
  "json_dumps d =
     (case find (\<lambda>(k, v). is_decimal v) d of
        Some kv \<Rightarrow> Inl (Exn ''TypeError'' ''Object of type Decimal is not JSON serializable'')
      | None \<Rightarrow> Inr d)"

text \<open>Lines 230 to 236, the body of the \<open>try\<close> of the handler.\<close>

definition handler_body ::
  "('f, 'd) extractor_env \<Rightarrow> ('f, 'd) extractor_state
     \<Rightarrow> ('f, 'd) extractor_state \<times> (exn + string)" where
  "handler_body w s =
     (case get_data_from_redshift w s of
        (s1, Inl e) \<Rightarrow> (s1, Inl e)
      | (s1, Inr redshift_data) \<Rightarrow>
          (case json_dumps redshift_data of
             Inl e \<Rightarrow> (s1, Inl e)
           | Inr payload \<Rightarrow>
               (case invoke_outcome w of
                  Some e \<Rightarrow> (s1, Inl e)
                | None \<Rightarrow>
                    (s1\<lparr>invoked := invoked s1 @ [payload]\<rparr>,
                     Inr ''Payload sent to daily_bot_stats_notify''))))"

text \<open>
  Lines 228 to 240. In the \<open>except\<close> clause the failure is logged and
  \<open>send_sns_notification\<close> is called; the bare \<open>raise\<close> after it, which raises the caught
  exception again, is reached only when that call returns.
\<close>

definition lambda_handler ::
  "('f, 'd) extractor_env \<Rightarrow> ('f, 'd) extractor_state
     \<Rightarrow> ('f, 'd) extractor_state \<times> (exn + string)" where
  "lambda_handler w s =
     (case handler_body w s of
        (s1, Inr r) \<Rightarrow> (s1, Inr r)
      | (s1, Inl e) \<Rightarrow>
          (case send_sns_notification w (exn_str e)
                  (log_msg ERROR (''Lambda daily_bot_stats_extract failed: '' @ exn_str e) s1) of
             (s2, Inl e') \<Rightarrow> (s2, Inl e')
           | (s2, Inr u) \<Rightarrow> (s2, Inl e)))"

section \<open>The churn query of the extractor\<close>

text \<open>
  Lines 64 to 122 are SQL, run by the warehouse on the table \<open>daily_bot_signup_churn\<close>.
  The query is modelled as a function of the current date and of the rows of the table,
  of which it reads three columns; a column may be NULL (\<open>None\<close>). The column
  \<open>status_date\<close> is taken to hold dates, and a date is a calendar date (year, month,
  day).

  A \<open>WHERE\<close> clause keeps a row, and a \<open>CASE WHEN\<close> takes its branch, only when the
  condition is true; a comparison with NULL is not. The conditions of the query are
  conjunctions of comparisons, so it is enough to say when each comparison is true.
\<close>

type_synonym date = "int \<times> nat \<times> nat"

record churn_row =
  email :: "string option"
  status :: "string option"
  status_date :: "date option"

definition leap_year :: "int \<Rightarrow> bool" where
  "leap_year y \<longleftrightarrow> y mod 4 = 0 \<and> (y mod 100 \<noteq> 0 \<or> y mod 400 = 0)"

definition days_in_month :: "int \<Rightarrow> nat \<Rightarrow> nat" where
  "days_in_month y m =
     (if m = 2 then (if leap_year y then 29 else 28)
      else if m = 4 \<or> m = 6 \<or> m = 9 \<or> m = 11 then 30 else 31)"

fun prev_day :: "date \<Rightarrow> date" where
  "prev_day (y, m, d) =
     (if 1 < d then (y, m, d - 1)
      else if 1 < m then (y, m - 1, days_in_month y (m - 1))
      else (y - 1, 12, 31))"

text \<open>\<open>CURRENT_DATE - INTERVAL 'n days'\<close>.\<close>

definition minus_days :: "nat \<Rightarrow> date \<Rightarrow> date" where
  "minus_days n dt = (prev_day ^^ n) dt"

text \<open>
  \<open>CURRENT_DATE - INTERVAL '1 month'\<close>: the same day of the month before, or the last day
  of that month when it is shorter.
\<close>

fun minus_month :: "date \<Rightarrow> date" where
  "minus_month (y, m, d) =
     (if 1 < m then (y, m - 1, min d (days_in_month y (m - 1))) else (y - 1, 12, d))"

fun date_le :: "date \<Rightarrow> date \<Rightarrow> bool" where
  "date_le (y1, m1, d1) (y2, m2, d2) \<longleftrightarrow>
     y1 < y2 \<or> (y1 = y2 \<and> (m1 < m2 \<or> (m1 = m2 \<and> d1 \<le> d2)))"

definition date_lt :: "date \<Rightarrow> date \<Rightarrow> bool" where
  "date_lt a b \<longleftrightarrow> date_le a b \<and> a \<noteq> b"

text \<open>\<open>col >= t\<close> and \<open>col < t\<close> are true.\<close>

definition on_or_after :: "date option \<Rightarrow> date \<Rightarrow> bool" where
  "on_or_after col t = (case col of None \<Rightarrow> False | Some d \<Rightarrow> date_le t d)"

definition before :: "date option \<Rightarrow> date \<Rightarrow> bool" where
  "before col t = (case col of None \<Rightarrow> False | Some d \<Rightarrow> date_lt d t)"

text \<open>\<open>CASE WHEN c THEN v END\<close> and \<open>COUNT(DISTINCT ...)\<close>, which counts the values that are not NULL.\<close>

definition case_when :: "bool \<Rightarrow> 'a option \<Rightarrow> 'a option" where
  "case_when c v = (if c then v else None)"

definition count_distinct :: "'a option list \<Rightarrow> nat" where
  "count_distinct vs = length (remdups (concat (map (\<lambda>v. case v of None \<Rightarrow> [] | Some x \<Rightarrow> [x]) vs)))"

record churn_counts =
  churn_conversion :: nat
  churn_canceled :: nat
  churn_none :: nat
  churn_new_signup :: nat
  churn_past_due :: nat

text \<open>Lines 66 to 76, the CTE \<open>churn_total\<close>.\<close>

definition churn_total :: "date \<Rightarrow> churn_row list \<Rightarrow> churn_counts" where
  "churn_total current_date tbl =
     (let rows = filter (\<lambda>r. email r \<noteq> None) tbl in
      \<lparr>churn_conversion = count_distinct (map (\<lambda>r. case_when (status r = Some ''Conversion'') (email r)) rows),
       churn_canceled = count_distinct (map (\<lambda>r. case_when (status r = Some ''Canceled'') (email r)) rows),
       churn_none = count_distinct (map (\<lambda>r. case_when (status r = Some ''None'') (email r)) rows),
       churn_new_signup = count_distinct (map (\<lambda>r. case_when (status r = Some ''New Signup'') (email r)) rows),
       churn_past_due = count_distinct
         (map (\<lambda>r. case_when (on_or_after (status_date r) (minus_days 7 current_date)) (email r)) rows)\<rparr>)"

text \<open>Lines 77 to 89, the CTE \<open>churn_last_week\<close>.\<close>

definition churn_last_week :: "date \<Rightarrow> churn_row list \<Rightarrow> churn_counts" where
  "churn_last_week current_date tbl =
     (let rows = filter (\<lambda>r. email r \<noteq> None
                        \<and> on_or_after (status_date r) (minus_days 7 current_date)
                        \<and> before (status_date r) current_date) tbl in
      \<lparr>churn_conversion = count_distinct (map (\<lambda>r. case_when (status r = Some ''Conversion'') (email r)) rows),
       churn_canceled = count_distinct (map (\<lambda>r. case_when (status r = Some ''Canceled'') (email r)) rows),
       churn_none = count_distinct (map (\<lambda>r. case_when (status r = Some ''None'') (email r)) rows),
       churn_new_signup = count_distinct (map (\<lambda>r. case_when (status r = Some ''New Signup'') (email r)) rows),
       churn_past_due = count_distinct
         (map (\<lambda>r. case_when (on_or_after (status_date r) (minus_days 7 current_date)) (email r)) rows)\<rparr>)"

text \<open>Lines 90 to 102, the CTE \<open>churn_last_month\<close>.\<close>

definition churn_last_month :: "date \<Rightarrow> churn_row list \<Rightarrow> churn_counts" where
  "churn_last_month current_date tbl =
     (let rows = filter (\<lambda>r. email r \<noteq> None
                        \<and> on_or_after (status_date r) (minus_month current_date)
                        \<and> before (status_date r) current_date) tbl in
      \<lparr>churn_conversion = count_distinct (map (\<lambda>r. case_when (status r = Some ''Conversion'') (email r)) rows),
       churn_canceled = count_distinct (map (\<lambda>r. case_when (status r = Some ''Canceled'') (email r)) rows),
       churn_none = count_distinct (map (\<lambda>r. case_when (status r = Some ''None'') (email r)) rows),
       churn_new_signup = count_distinct (map (\<lambda>r. case_when (status r = Some ''New Signup'') (email r)) rows),
       churn_past_due = count_distinct
         (map (\<lambda>r. case_when (on_or_after (status_date r) (minus_month current_date)) (email r)) rows)\<rparr>)"

text \<open>
  Lines 103 to 121: the three one-row results side by side, as the one row of fifteen
  counts that \<open>fetchone\<close> then returns.
\<close>

definition churn_counts_row :: "churn_counts \<Rightarrow> ('f, 'd) pyval list" where
  "churn_counts_row c =
     map (\<lambda>n. PInt (int n))
       [churn_conversion c, churn_canceled c, churn_none c, churn_new_signup c, churn_past_due c]"

definition churn_query :: "date \<Rightarrow> churn_row list \<Rightarrow> ('f, 'd) pyval list" where
  "churn_query current_date tbl =
     churn_counts_row (churn_total current_date tbl)
     @ churn_counts_row (churn_last_week current_date tbl)
     @ churn_counts_row (churn_last_month current_date tbl)"

text \<open>
  Vocabulary of the properties of the churn query, and an example table.
  The emails of the rows of a table that are not NULL and whose status date satisfies a
  condition: what a past-due figure is said to count.
\<close>

definition emails_where :: "(date \<Rightarrow> bool) \<Rightarrow> churn_row list \<Rightarrow> string set" where
  "emails_where P tbl =
     {e. \<exists>r \<in> set tbl. email r = Some e \<and> (\<exists>d. status_date r = Some d \<and> P d)}"

definition example_churn_table :: "churn_row list" where
  "example_churn_table =
     [\<lparr>email = Some ''ann@example.com'', status = Some ''Canceled'', status_date = Some (2026, 10, 20)\<rparr>,
      \<lparr>email = Some ''bob@example.com'', status = Some ''Conversion'', status_date = Some (2026, 11, 2)\<rparr>,
      \<lparr>email = Some ''bob@example.com'', status = Some ''New Signup'', status_date = Some (2026, 10, 30)\<rparr>,
      \<lparr>email = None, status = Some ''None'', status_date = Some (2026, 11, 3)\<rparr>,
      \<lparr>email = Some ''cat@example.com'', status = Some ''New Signup'', status_date = None\<rparr>,
      \<lparr>email = Some ''dan@example.com'', status = Some ''Canceled'', status_date = Some (2026, 9, 1)\<rparr>]"


section \<open>The notifier: \<open>revii_stats_notify.py\<close>\<close>

subsection \<open>Discovery of the coupon codes\<close>

text \<open>
  Line 171 of \<open>build_message\<close>: the keys of the event that end in
  \<open>_coupon_active_subscriptions\<close>, in the order of the mapping, each with every
  occurrence of that text removed. Only the keys are read, so the function is the same
  for the mapping the extractor builds and for the event the notifier receives.
\<close>

definition coupon_prefixes :: "'v dict \<Rightarrow> string list" where
  "coupon_prefixes event =
     map (\<lambda>key. py_replace ''_coupon_active_subscriptions'' [] key)
       (filter (\<lambda>key. endswith key ''_coupon_active_subscriptions'') (dict_keys event))"

subsection \<open>JSON values and the interpreter\<close>

text \<open>
  The event the notifier receives and the bodies the analytics API returns are JSON.
  A JSON object is a Python \<open>dict\<close> with string keys. As before, binary floating point
  is a type parameter, and what the interpreter does with it is a parameter: converting
  an integer for a mixed addition (\<open>None\<close> when Python raises \<open>OverflowError\<close>), adding,
  testing for zero, and \<open>str\<close>. \<open>str\<close> of a list or of a dict and \<open>json.loads\<close> are
  parameters as well.
\<close>

datatype 'f jval =
    JNull
  | JBool bool
  | JInt int
  | JFloat 'f
  | JStr string
  | JArr "'f jval list"
  | JObj "(string \<times> 'f jval) list"

record 'f interp =
  float_of_int :: "int \<Rightarrow> 'f option"
  float_add :: "'f \<Rightarrow> 'f \<Rightarrow> 'f"
  float_is_zero :: "'f \<Rightarrow> bool"
  jstr_of_float :: "'f \<Rightarrow> string"
  str_of_container :: "'f jval \<Rightarrow> string"
  json_loads :: "string \<Rightarrow> exn + 'f jval"

fun jstr :: "'f interp \<Rightarrow> 'f jval \<Rightarrow> string" where
  "jstr ops JNull = ''None''"
| "jstr ops (JBool b) = (if b then ''True'' else ''False'')"
| "jstr ops (JInt i) = str_of_int i"
| "jstr ops (JFloat x) = jstr_of_float ops x"
| "jstr ops (JStr s) = s"
| "jstr ops (JArr xs) = str_of_container ops (JArr xs)"
| "jstr ops (JObj d) = str_of_container ops (JObj d)"

text \<open>Truth value of a JSON value, as \<open>if v\<close> tests it.\<close>

fun py_truthy :: "'f interp \<Rightarrow> 'f jval \<Rightarrow> bool" where
  "py_truthy ops JNull = False"
| "py_truthy ops (JBool b) = b"
| "py_truthy ops (JInt i) = (i \<noteq> 0)"
| "py_truthy ops (JFloat x) = (\<not> float_is_zero ops x)"
| "py_truthy ops (JStr s) = (s \<noteq> [])"
| "py_truthy ops (JArr xs) = (xs \<noteq> [])"
| "py_truthy ops (JObj d) = (d \<noteq> [])"

text \<open>
  \<open>acc + v\<close> as \<open>sum\<close> computes it: the accumulator starts at the integer 0 and stays a
  number. A \<open>bool\<close> is an integer; an integer and a float add as floats; anything else on
  the right raises \<open>TypeError\<close>.
\<close>

datatype 'f number = NInt int | NFloat 'f | NotANumber

fun as_number :: "'f jval \<Rightarrow> 'f number" where
  "as_number (JBool b) = NInt (if b then 1 else 0)"
| "as_number (JInt i) = NInt i"
| "as_number (JFloat x) = NFloat x"
| "as_number v = NotANumber"

definition overflow_error :: exn where
  "overflow_error = Exn ''OverflowError'' ''int too large to convert to float''"

definition py_add :: "'f interp \<Rightarrow> 'f jval \<Rightarrow> 'f jval \<Rightarrow> exn + 'f jval" where
  "py_add ops a b =
     (case (as_number a, as_number b) of
        (NInt i, NInt j) \<Rightarrow> Inr (JInt (i + j))
      | (NInt i, NFloat y) \<Rightarrow>
          (case float_of_int ops i of
             None \<Rightarrow> Inl overflow_error
           | Some x \<Rightarrow> Inr (JFloat (float_add ops x y)))
      | (NFloat x, NInt j) \<Rightarrow>
          (case float_of_int ops j of
             None \<Rightarrow> Inl overflow_error
           | Some y \<Rightarrow> Inr (JFloat (float_add ops x y)))
      | (NFloat x, NFloat y) \<Rightarrow> Inr (JFloat (float_add ops x y))
      | _ \<Rightarrow> Inl (Exn ''TypeError'' ''unsupported operand type(s) for +''))"

fun py_sum_from :: "'f interp \<Rightarrow> 'f jval \<Rightarrow> 'f jval list \<Rightarrow> exn + 'f jval" where
  "py_sum_from ops acc [] = Inr acc"
| "py_sum_from ops acc (v # vs) =
     (case py_add ops acc v of
        Inl e \<Rightarrow> Inl e
      | Inr acc' \<Rightarrow> py_sum_from ops acc' vs)"

definition py_sum :: "'f interp \<Rightarrow> 'f jval list \<Rightarrow> exn + 'f jval" where
  "py_sum ops vs = py_sum_from ops (JInt 0) vs"

text \<open>
  \<open>obj.get(k, default)\<close>, \<open>obj[0]\<close> and \<open>obj[k]\<close> for a string \<open>k\<close>, on a JSON value. The
  keys of a JSON object are strings, so \<open>obj[0]\<close> on one is a \<open>KeyError\<close>.
\<close>

definition attribute_error :: exn where
  "attribute_error = Exn ''AttributeError'' ''object has no attribute get''"

fun py_get :: "'f jval \<Rightarrow> string \<Rightarrow> 'f jval \<Rightarrow> exn + 'f jval" where
  "py_get (JObj d) k dflt = Inr (dict_get d k dflt)"
| "py_get v k dflt = Inl attribute_error"

fun py_index0 :: "'f jval \<Rightarrow> exn + 'f jval" where
  "py_index0 (JArr []) = Inl (Exn ''IndexError'' ''list index out of range'')"
| "py_index0 (JArr (x # xs)) = Inr x"
| "py_index0 (JStr []) = Inl (Exn ''IndexError'' ''string index out of range'')"
| "py_index0 (JStr (c # cs)) = Inr (JStr [c])"
| "py_index0 (JObj d) = Inl (Exn ''KeyError'' ''0'')"
| "py_index0 v = Inl (Exn ''TypeError'' ''object is not subscriptable'')"

fun py_item :: "'f jval \<Rightarrow> string \<Rightarrow> exn + 'f jval" where
  "py_item (JObj d) k = (case map_of d k of None \<Rightarrow> Inl (key_error k) | Some v \<Rightarrow> Inr v)"
| "py_item (JArr xs) k = Inl (Exn ''TypeError'' ''list indices must be integers or slices, not str'')"
| "py_item (JStr s) k = Inl (Exn ''TypeError'' ''string indices must be integers'')"
| "py_item v k = Inl (Exn ''TypeError'' ''object is not subscriptable'')"

subsection \<open>The world the notifier runs in\<close>

text \<open>
  The module reads its configuration from the environment when it is imported
  (lines 15 to 52); a run of the handler has it. \<open>SNS_TOPIC_ARN\<close> is read with
  \<open>os.environ.get\<close> and may be missing.
\<close>

record config =
  segment_a_id :: string
  segment_b_id :: string
  page_web_id :: string
  page_ios_id :: string
  page_android_id :: string
  feature_roleplay_id :: string
  feature_automation_1_id :: string
  feature_automation_2_id :: string
  feature_automation_3_id :: string
  sns_topic_arn :: "string option"

definition SEGMENTS :: "config \<Rightarrow> (string \<times> string) list" where
  "SEGMENTS cfg = [(''Segment-A'', segment_a_id cfg), (''Segment-B'', segment_b_id cfg)]"

definition PAGES :: "config \<Rightarrow> (string \<times> string) list" where
  "PAGES cfg = [(''Web'', page_web_id cfg), (''iOS'', page_ios_id cfg), (''Android'', page_android_id cfg)]"

definition FEATURE_GROUPS :: "config \<Rightarrow> (string \<times> string list) list" where
  "FEATURE_GROUPS cfg =
     [(''Roleplay'', [feature_roleplay_id cfg]),
      (''Automation'', [feature_automation_1_id cfg, feature_automation_2_id cfg,
                        feature_automation_3_id cfg])]"

text \<open>
  A call of \<open>requests.post\<close> either raises or returns a response, of which the code reads
  the status and the body as JSON (\<open>resp.json()\<close>, which raises on a body that is not
  JSON). What the analytics API answers may change from call to call: the environment
  gives the outcome of its \<open>n\<close>-th call of the run.
\<close>

datatype 'f http_outcome =
    RequestError exn
  | Response (status_code: nat) (json_body: "exn + 'f jval")

datatype analytics_request =
    PageEvents string string
  | FeatureEvents string string

record 'f notifier_env =
  config :: config
  interp :: "'f interp"
  analytics :: "nat \<Rightarrow> 'f http_outcome"
  slack :: "'f http_outcome"
  notifier_sns_client_outcome :: "exn option"
  notifier_sns_publish_outcome :: "exn option"

text \<open>
  The state of a run: how many calls of the analytics API were made, and everything the
  run did to the outside, in order.
\<close>

datatype effect =
    AnalyticsPost analytics_request
  | SlackPost string
  | SnsPublish "string option" string string
  | Logged log_level string

record notifier_state =
  calls :: nat
  trace :: "effect list"

definition notifier_initial_state :: notifier_state where
  "notifier_initial_state = \<lparr>calls = 0, trace = []\<rparr>"

definition record_effect :: "effect \<Rightarrow> notifier_state \<Rightarrow> notifier_state" where
  "record_effect x s = s\<lparr>trace := trace s @ [x]\<rparr>"

text \<open>\<open>resp.raise_for_status()\<close>: a status from 400 to 599 raises \<open>HTTPError\<close>.\<close>

definition raise_for_status :: "nat \<Rightarrow> exn option" where
  "raise_for_status st =
     (if 400 \<le> st \<and> st < 600 then Some (Exn ''HTTPError'' (str_of_nat st @ '' Error'')) else None)"

subsection \<open>\<open>clicks_for_feature\<close> and \<open>extract_data\<close>\<close>

text \<open>
  Lines 77 and 78, and lines 108 to 113: the request is posted to the analytics API, the
  status is checked, and the body is read as JSON. The two \<open>print\<close> calls of
  \<open>extract_data\<close> write to standard output only and are left out.
\<close>

definition post_analytics ::
  "'f notifier_env \<Rightarrow> analytics_request \<Rightarrow> notifier_state \<Rightarrow> notifier_state \<times> (exn + 'f jval)" where
  "post_analytics w req s =
     (let s1 = record_effect (AnalyticsPost req) (s\<lparr>calls := calls s + 1\<rparr>) in
      case analytics w (calls s) of
        RequestError e \<Rightarrow> (s1, Inl e)
      | Response st body \<Rightarrow>
          (case raise_for_status st of
             Some e \<Rightarrow> (s1, Inl e)
           | None \<Rightarrow> (s1, body)))"

text \<open>Line 79: \<open>r.json().get("results", [{}])[0].get("clicks", 0)\<close>.\<close>

definition clicks_of_body :: "'f jval \<Rightarrow> exn + 'f jval" where
  "clicks_of_body j =
     (case py_get j ''results'' (JArr [JObj []]) of
        Inl e \<Rightarrow> Inl e
      | Inr results \<Rightarrow>
          (case py_index0 results of
             Inl e \<Rightarrow> Inl e
           | Inr first \<Rightarrow> py_get first ''clicks'' (JInt 0)))"

definition clicks_for_feature ::
  "'f notifier_env \<Rightarrow> string \<Rightarrow> string \<Rightarrow> notifier_state \<Rightarrow> notifier_state \<times> (exn + 'f jval)" where
  "clicks_for_feature w seg_id feat_id s =
     (case post_analytics w (FeatureEvents seg_id feat_id) s of
        (s1, Inl e) \<Rightarrow> (s1, Inl e)
      | (s1, Inr j) \<Rightarrow> (s1, clicks_of_body j))"

text \<open>
  Lines 113 and 114: \<open>view_rows = resp.json().get("results", [])\<close> and
  \<open>view_rows[0]["views"] if view_rows else 0\<close>.
\<close>

definition views_of_body :: "'f interp \<Rightarrow> 'f jval \<Rightarrow> exn + 'f jval" where
  "views_of_body ops j =
     (case py_get j ''results'' (JArr []) of
        Inl e \<Rightarrow> Inl e
      | Inr view_rows \<Rightarrow>
          (if py_truthy ops view_rows
           then (case py_index0 view_rows of
                   Inl e \<Rightarrow> Inl e
                 | Inr first \<Rightarrow> py_item first ''views'')
           else Inr (JInt 0)))"

text \<open>
  A dataframe is the list of its rows: segment, page or feature group, and the count.
\<close>

type_synonym 'f dataframe = "(string \<times> string \<times> 'f jval) list"

text \<open>Lines 85 to 120, the loop over \<open>product(SEGMENTS.items(), PAGES.items())\<close>.\<close>

fun views_loop ::
  "'f notifier_env \<Rightarrow> ((string \<times> string) \<times> (string \<times> string)) list \<Rightarrow> 'f dataframe
     \<Rightarrow> notifier_state \<Rightarrow> notifier_state \<times> (exn + 'f dataframe)" where
  "views_loop w [] results s = (s, Inr results)"
| "views_loop w (((seg_name, seg_id), (page_name, page_id)) # cells) results s =
     (case post_analytics w (PageEvents seg_id page_id) s of
        (s1, Inl e) \<Rightarrow> (s1, Inl e)
      | (s1, Inr j) \<Rightarrow>
          (case views_of_body (interp w) j of
             Inl e \<Rightarrow> (s1, Inl e)
           | Inr total_views \<Rightarrow>
               views_loop w cells (results @ [(seg_name, page_name, total_views)]) s1))"

text \<open>
  Line 125: \<open>sum(clicks_for_feature(seg_id, fid) for fid in feats)\<close>. The generator makes
  one call, the value is added, then the next call is made.
\<close>

fun clicks_sum ::
  "'f notifier_env \<Rightarrow> string \<Rightarrow> string list \<Rightarrow> 'f jval
     \<Rightarrow> notifier_state \<Rightarrow> notifier_state \<times> (exn + 'f jval)" where
  "clicks_sum w seg_id [] acc s = (s, Inr acc)"
| "clicks_sum w seg_id (fid # feats) acc s =
     (case clicks_for_feature w seg_id fid s of
        (s1, Inl e) \<Rightarrow> (s1, Inl e)
      | (s1, Inr v) \<Rightarrow>
          (case py_add (interp w) acc v of
             Inl e \<Rightarrow> (s1, Inl e)
           | Inr acc' \<Rightarrow> clicks_sum w seg_id feats acc' s1))"

text \<open>
  Lines 122 to 130, the two nested loops over the segments and the feature groups, which
  visit the pairs in the order of their product.
\<close>

fun clicks_loop ::
  "'f notifier_env \<Rightarrow> ((string \<times> string) \<times> (string \<times> string list)) list \<Rightarrow> 'f dataframe
     \<Rightarrow> notifier_state \<Rightarrow> notifier_state \<times> (exn + 'f dataframe)" where
  "clicks_loop w [] rows s = (s, Inr rows)"
| "clicks_loop w (((seg_name, seg_id), (grp_name, feats)) # cells) rows s =
     (case clicks_sum w seg_id feats (JInt 0) s of
        (s1, Inl e) \<Rightarrow> (s1, Inl e)
      | (s1, Inr total_clicks) \<Rightarrow>
          clicks_loop w cells (rows @ [(seg_name, grp_name, total_clicks)]) s1)"

definition extract_data ::
  "'f notifier_env \<Rightarrow> notifier_state \<Rightarrow> notifier_state \<times> (exn + 'f dataframe \<times> 'f dataframe)" where
  "extract_data w s =
     (case views_loop w (List.product (SEGMENTS (config w)) (PAGES (config w))) [] s of
        (s1, Inl e) \<Rightarrow> (s1, Inl e)
      | (s1, Inr results) \<Rightarrow>
          (case clicks_loop w (List.product (SEGMENTS (config w)) (FEATURE_GROUPS (config w))) [] s1 of
             (s2, Inl e) \<Rightarrow> (s2, Inl e)
           | (s2, Inr rows) \<Rightarrow> (s2, Inr (rows, results))))"

subsection \<open>\<open>send_sns_notification\<close>, \<open>send_to_slack\<close> and \<open>build_message\<close>\<close>

text \<open>
  Lines 136 to 150. The functions of the notifier that have the name of a function of
  the extractor carry the suffix \<open>_notify\<close>. The publish call is recorded when it
  succeeds.
\<close>

definition send_sns_notification_notify ::
  "'f notifier_env \<Rightarrow> string \<Rightarrow> notifier_state \<Rightarrow> notifier_state \<times> (exn + unit)" where
  "send_sns_notification_notify w message s =
     (case notifier_sns_client_outcome w of
        Some e \<Rightarrow> (s, Inl e)
      | None \<Rightarrow>
          (case notifier_sns_publish_outcome w of
             None \<Rightarrow>
               (record_effect (Logged INFO ''SNS notification sent successfully.'')
                  (record_effect
                     (SnsPublish (sns_topic_arn (config w)) ''Slack Notification Error'' message) s),
                Inr ())
           | Some e \<Rightarrow>
               (record_effect (Logged ERROR (''Failed to send SNS notification: '' @ exn_str e)) s,
                Inl e)))"

text \<open>
  Lines 152 to 161. The webhook is called with the message; an exception of the call or
  of the status check is replaced by an \<open>Exception\<close> carrying its text.
\<close>

definition send_to_slack ::
  "'f notifier_env \<Rightarrow> string \<Rightarrow> notifier_state \<Rightarrow> notifier_state \<times> (exn + unit)" where
  "send_to_slack w message s =
     (let s1 = record_effect (SlackPost message) s in
      case (case slack w of
              RequestError e \<Rightarrow> Some e
            | Response st body \<Rightarrow> raise_for_status st) of
        Some e \<Rightarrow> (s1, Inl (Exn ''Exception'' (''Failed to send to Slack: '' @ exn_str e)))
      | None \<Rightarrow> (s1, Inr ()))"

text \<open>
  The two characters of the report that are not ASCII, a bullet and a white circle, as
  their UTF-8 bytes; and \<open>"\n".join(lines)\<close>.
\<close>

definition bullet :: string where
  "bullet = [CHR 0xE2, CHR 0x80, CHR 0xA2]"

definition circle :: string where
  "circle = [CHR 0xE2, CHR 0x97, CHR 0x8B]"

fun join_lines :: "string list \<Rightarrow> string" where
  "join_lines [] = []"
| "join_lines [l] = l"
| "join_lines (l # ls) = l @ [CHR 0x0A] @ join_lines ls"

text \<open>
  Lines 163 to 181. \<open>event.get\<close> needs a dict. The list \<open>coupon_prefixes\<close> of line 171
  is \<open>prefixes\<close> here. \<open>next(..., None)\<close> gives the first prefix that satisfies the
  condition. The two sums may raise; the lines are built after them. \<open>df_clicks\<close> and \<open>df_views\<close> are parameters of the function and are
  not read by its body.
\<close>

definition build_message ::
  "'f interp \<Rightarrow> 'f jval \<Rightarrow> 'f dataframe \<Rightarrow> 'f dataframe \<Rightarrow> exn + string" where
  "build_message ops event df_clicks df_views =
     (case event of
        JObj ev \<Rightarrow>
          (let report_date = dict_get ev ''report_date'' (JStr '''');
               line1 = ''Stats for '' @ jstr ops report_date;
               line2 = bullet @ ''  Lifetime user total: '' @ jstr ops (dict_get ev ''total'' (JInt 0));
               prefixes = coupon_prefixes ev
           in case py_sum ops (map (\<lambda>p. dict_get ev (p @ ''_coupon_active_subscriptions'') (JInt 0))
                                 prefixes) of
                Inl e \<Rightarrow> Inl e
              | Inr total_active_users \<Rightarrow>
                  (let no_coupon_key = find (\<lambda>p. py_lower p = ''no coupon code'') prefixes;
                       trials_without_coupon =
                         (case no_coupon_key of
                            None \<Rightarrow> JInt 0
                          | Some k \<Rightarrow> if k \<noteq> [] then dict_get ev (k @ ''_total_trials'') (JInt 0)
                                      else JInt 0)
                   in case py_sum ops (map (\<lambda>p. dict_get ev (p @ ''_total_trials'') (JInt 0))
                                         (filter (\<lambda>p. py_lower p \<noteq> ''no coupon code'') prefixes)) of
                        Inl e \<Rightarrow> Inl e
                      | Inr trials_with_coupon \<Rightarrow>
                          Inr (join_lines
                            [line1,
                             line2,
                             bullet @ ''  Active snapshot stats :'',
                             ''   '' @ circle @ ''  Total Active Users: '' @ jstr ops total_active_users,
                             ''   '' @ circle @ ''  Total Active Trial Users without a coupon: ''
                               @ jstr ops trials_without_coupon,
                             ''   '' @ circle @ ''  Total Active Trial Users with a coupon: ''
                               @ jstr ops trials_with_coupon])))
      | _ \<Rightarrow> Inl attribute_error)"

subsection \<open>\<open>lambda_handler\<close> of the notifier\<close>

text \<open>
  Lines 185 to 193, the body of the \<open>try\<close>: an event that is a string is parsed, the
  analytics data is fetched, the message is built, logged and sent. The value returned
  is the status 200 and the body \<open>json.dumps({"message_sent": True})\<close>.
\<close>

definition message_sent_body :: string where
  "message_sent_body = ''{'' @ [CHR 0x22] @ ''message_sent'' @ [CHR 0x22] @ '': true}''"

definition handler_body_notify ::
  "'f notifier_env \<Rightarrow> 'f jval \<Rightarrow> notifier_state \<Rightarrow> notifier_state \<times> (exn + nat \<times> string)" where
  "handler_body_notify w event s =
     (case (case event of JStr text \<Rightarrow> json_loads (interp w) text | _ \<Rightarrow> Inr event) of
        Inl e \<Rightarrow> (s, Inl e)
      | Inr payload \<Rightarrow>
          (case extract_data w s of
             (s1, Inl e) \<Rightarrow> (s1, Inl e)
           | (s1, Inr (df_clicks, df_views)) \<Rightarrow>
               (case build_message (interp w) payload df_clicks df_views of
                  Inl e \<Rightarrow> (s1, Inl e)
                | Inr message \<Rightarrow>
                    (case send_to_slack w message
                            (record_effect (Logged INFO (''Constructed Slack message:'' @ [CHR 0x0A] @ message)) s1) of
                       (s2, Inl e) \<Rightarrow> (s2, Inl e)
                     | (s2, Inr u) \<Rightarrow> (s2, Inr (200, message_sent_body))))))"

text \<open>Lines 183 to 198.\<close>

definition lambda_handler_notify ::
  "'f notifier_env \<Rightarrow> 'f jval \<Rightarrow> notifier_state \<Rightarrow> notifier_state \<times> (exn + nat \<times> string)" where
  "lambda_handler_notify w event s =
     (case handler_body_notify w event s of
        (s1, Inr r) \<Rightarrow> (s1, Inr r)
      | (s1, Inl e) \<Rightarrow>
          (let error_message = ''Lambda job revii_stats_notify failed: '' @ exn_str e in
           case send_sns_notification_notify w error_message
                  (record_effect (Logged ERROR error_message) s1) of
             (s2, Inl e') \<Rightarrow> (s2, Inl e')
           | (s2, Inr u) \<Rightarrow> (s2, Inl e)))"

section \<open>Vocabulary of the properties and example runs\<close>

subsection \<open>The extractor\<close>

text \<open>
  The four keys the flattening step derives from a coupon code, the code of a row as the
  f-string formats it (\<open>str\<close> of the first value), and the keys of a mapping that the
  consumer's discovery looks at.
\<close>

definition coupon_keys :: "string \<Rightarrow> string list" where
  "coupon_keys c = [c @ ''_coupon_active_subscriptions'', c @ ''_total_trials'',
     c @ ''_total_conversions'', c @ ''_conversion_rate'']"

definition row_code :: "('f, 'd) py_builtins \<Rightarrow> ('f, 'd) pyval list \<Rightarrow> string" where
  "row_code ops row = py_str ops (hd row)"

definition suffix_keys :: "'v dict \<Rightarrow> string list" where
  "suffix_keys d = filter (\<lambda>key. endswith key ''_coupon_active_subscriptions'') (dict_keys d)"

text \<open>Whether \<open>get_data_from_redshift\<close> gets as far as an open connection.\<close>

definition connects :: "('f, 'd) extractor_env \<Rightarrow> bool" where
  "connects w \<longleftrightarrow>
     first_missing (environ w) [''DBNAME'', ''USER'', ''PASSWORD'', ''HOST'', ''PORT''] = None
     \<and> connect_outcome (warehouse w) = None"

text \<open>
  An example run. Floats and decimals are rationals here and \<open>float\<close> of a decimal is
  exact; \<open>str\<close> of a float or a decimal is not needed by the examples. The column names
  are those of the two \<open>SELECT\<close> lists of the source, the coupon rows those of the
  scenario of the specification, with the rate as the driver delivers a NUMERIC column.
\<close>

definition example_builtins :: "(rat, rat) py_builtins" where
  "example_builtins =
     \<lparr>float_of_decimal = (\<lambda>d. d), str_of_float = (\<lambda>x. []), str_of_decimal = (\<lambda>x. [])\<rparr>"

definition static_cols :: "string list" where
  "static_cols = [''report_date'', ''total'', ''trials'', ''daily_bot2025_trials'',
     ''revenue30_trials'', ''active_subscriptions'', ''past_due_subscriptions'',
     ''yearly_subscriptions'', ''cancelled_subscriptions'', ''cancel_after_trial'',
     ''cancel_during_trial'', ''ios_first_time_downloads'', ''ios_total_downloads'',
     ''google_play_active_installs'']"

definition churn_cols :: "string list" where
  "churn_cols = [''churn_conversion_all'', ''churn_canceled_all'', ''churn_none_all'',
     ''churn_new_signup_all'', ''churn_past_due_all'', ''churn_conversion_week'',
     ''churn_canceled_week'', ''churn_none_week'', ''churn_new_signup_week'',
     ''churn_past_due_week'', ''churn_conversion_month'', ''churn_canceled_month'',
     ''churn_none_month'', ''churn_new_signup_month'', ''churn_past_due_month'']"

definition example_coupon_rows :: "(rat, rat) pyval list list" where
  "example_coupon_rows =
     [[PStr ''SAVE10'', PInt 5, PInt 20, PInt 8, PDecimal (2 / 5)],
      [PStr ''No Coupon Code'', PInt 50, PInt 100, PInt 60, PDecimal (3 / 5)]]"

definition example_warehouse :: "(rat, rat) warehouse" where
  "example_warehouse =
     \<lparr>connect_outcome = None,
      cursor_outcome = None,
      static_metrics_result = ResultSet static_cols
        [[PStr ''11/04/2026'', PInt 900, PInt 120, PInt 30, PInt 40, PInt 700, PInt 12,
          PInt 80, PInt 95, PInt 20, PInt 15, PInt 7, PInt 3000, PInt 450]],
      churn_result = ResultSet churn_cols
        [[PInt 300, PInt 95, PInt 10, PInt 500, PInt 25, PInt 9, PInt 4, PInt 0, PInt 21,
          PInt 25, PInt 33, PInt 14, PInt 2, PInt 80, PInt 110]],
      coupon_result = ResultSet
        [''coupon_code'', ''coupon_active_subscriptions'', ''total_trials'',
         ''total_conversions'', ''percent_converted'']
        example_coupon_rows,
      signup_result = ResultSet
        [''period'', ''new_signups_without_coupon'', ''new_signups_with_coupon'',
         ''total_new_signups'']
        [[PStr ''all'', PInt 400, PInt 100, PInt 500],
         [PStr ''last_week'', PInt 15, PInt 6, PInt 21],
         [PStr ''last_month'', PInt 60, PInt 20, PInt 80]],
      cursor_close_outcome = None,
      conn_close_outcome = None\<rparr>"

definition example_environ :: "string \<rightharpoonup> string" where
  "example_environ =
     [''DBNAME'' \<mapsto> ''stats'', ''USER'' \<mapsto> ''bot'', ''PASSWORD'' \<mapsto> ''secret'',
      ''HOST'' \<mapsto> ''warehouse.example'', ''PORT'' \<mapsto> ''5439'',
      ''SNS_TOPIC_ARN'' \<mapsto> ''arn:aws:sns:topic'']"

definition example_env :: "(rat, rat) extractor_env" where
  "example_env =
     \<lparr>environ = example_environ,
      builtins = example_builtins,
      warehouse = example_warehouse,
      invoke_outcome = None,
      sns_client_outcome = None,
      sns_publish_outcome = None\<rparr>"

text \<open>The mapping the example run returns.\<close>

definition example_result :: "(rat, rat) pyval dict" where
  "example_result =
     zip static_cols
       [PStr ''11/04/2026'', PInt 900, PInt 120, PInt 30, PInt 40, PInt 700, PInt 12,
        PInt 80, PInt 95, PInt 20, PInt 15, PInt 7, PInt 3000, PInt 450]
     @ zip churn_cols
       [PInt 300, PInt 95, PInt 10, PInt 500, PInt 25, PInt 9, PInt 4, PInt 0, PInt 21,
        PInt 25, PInt 33, PInt 14, PInt 2, PInt 80, PInt 110]
     @ [(''SAVE10_coupon_active_subscriptions'', PInt 5),
        (''SAVE10_total_trials'', PInt 20),
        (''SAVE10_total_conversions'', PInt 8),
        (''SAVE10_conversion_rate'', PFloat (2 / 5)),
        (''No Coupon Code_coupon_active_subscriptions'', PInt 50),
        (''No Coupon Code_total_trials'', PInt 100),
        (''No Coupon Code_total_conversions'', PInt 60),
        (''No Coupon Code_conversion_rate'', PFloat (3 / 5)),
        (''all_new_signups_without_coupon'', PInt 400),
        (''all_new_signups_with_coupon'', PInt 100),
        (''all_total_new_signups'', PInt 500),
        (''last_week_new_signups_without_coupon'', PInt 15),
        (''last_week_new_signups_with_coupon'', PInt 6),
        (''last_week_total_new_signups'', PInt 21),
        (''last_month_new_signups_without_coupon'', PInt 60),
        (''last_month_new_signups_with_coupon'', PInt 20),
        (''last_month_total_new_signups'', PInt 80)]"


text \<open>
  Two runs that fail: one whose coupon query raises after the connection was opened, and
  one that cannot connect and whose failure topic rejects the publish call as well.
\<close>

definition failing_env :: "(rat, rat) extractor_env" where
  "failing_env =
     example_env\<lparr>warehouse := example_warehouse\<lparr>coupon_result :=
        QueryError (Exn ''OperationalError'' ''server closed the connection unexpectedly'')\<rparr>\<rparr>"

definition unreachable_env :: "(rat, rat) extractor_env" where
  "unreachable_env =
     example_env\<lparr>warehouse := example_warehouse\<lparr>connect_outcome :=
                    Some (Exn ''OperationalError'' ''could not connect to server'')\<rparr>,
                 sns_publish_outcome := Some (Exn ''ClientError'' ''topic not found'')\<rparr>"


subsection \<open>The notifier\<close>

text \<open>
  The integer a report figure reads from the event under a key: the value when it is an
  integer, and 0 when the key is absent. An event has integer counts when every value
  that \<open>build_message\<close> adds up is an integer or absent.
\<close>

definition metric :: "'f jval dict \<Rightarrow> string \<Rightarrow> int" where
  "metric ev k = (case map_of ev k of Some (JInt i) \<Rightarrow> i | _ \<Rightarrow> 0)"

definition integer_valued :: "'f jval dict \<Rightarrow> string \<Rightarrow> bool" where
  "integer_valued ev k = (case map_of ev k of None \<Rightarrow> True | Some (JInt i) \<Rightarrow> True | _ \<Rightarrow> False)"

definition integer_counts :: "'f jval dict \<Rightarrow> bool" where
  "integer_counts ev \<longleftrightarrow>
     list_all (\<lambda>p. integer_valued ev (p @ ''_coupon_active_subscriptions'')
                  \<and> integer_valued ev (p @ ''_total_trials'')) (coupon_prefixes ev)"

text \<open>The six lines of the report, in order, for three given figures.\<close>

definition report_text :: "'f interp \<Rightarrow> 'f jval dict \<Rightarrow> int \<Rightarrow> int \<Rightarrow> int \<Rightarrow> string" where
  "report_text ops ev users without_coupon with_coupon =
     join_lines
       [''Stats for '' @ jstr ops (dict_get ev ''report_date'' (JStr [])),
        bullet @ ''  Lifetime user total: '' @ jstr ops (dict_get ev ''total'' (JInt 0)),
        bullet @ ''  Active snapshot stats :'',
        ''   '' @ circle @ ''  Total Active Users: '' @ str_of_int users,
        ''   '' @ circle @ ''  Total Active Trial Users without a coupon: '' @ str_of_int without_coupon,
        ''   '' @ circle @ ''  Total Active Trial Users with a coupon: '' @ str_of_int with_coupon]"

text \<open>The chat messages of a run, and an analytics answer that passes the status check.\<close>

fun is_slack_post :: "effect \<Rightarrow> bool" where
  "is_slack_post (SlackPost m) = True"
| "is_slack_post x = False"

definition slack_posts :: "notifier_state \<Rightarrow> effect list" where
  "slack_posts s = filter is_slack_post (trace s)"

fun http_ok :: "'f http_outcome \<Rightarrow> bool" where
  "http_ok (RequestError e) = False"
| "http_ok (Response st body) = (raise_for_status st = None)"

text \<open>
  An example interpreter, with rationals for floats, and an example run in which the
  analytics API answers every call with a count of 10, except the eighth call, the first
  one for the feature group \<open>Automation\<close>, which it answers with status 500.
\<close>

definition example_interp :: "rat interp" where
  "example_interp =
     \<lparr>float_of_int = (\<lambda>i. Some (of_int i)),
      float_add = (\<lambda>x y. x + y),
      float_is_zero = (\<lambda>x. x = 0),
      jstr_of_float = (\<lambda>x. []),
      str_of_container = (\<lambda>v. []),
      json_loads = (\<lambda>text. Inl (Exn ''JSONDecodeError'' ''Expecting value''))\<rparr>"

definition example_config :: config where
  "example_config =
     \<lparr>segment_a_id = ''segA'', segment_b_id = ''segB'',
      page_web_id = ''web'', page_ios_id = ''ios'', page_android_id = ''android'',
      feature_roleplay_id = ''roleplay'',
      feature_automation_1_id = ''auto1'', feature_automation_2_id = ''auto2'',
      feature_automation_3_id = ''auto3'',
      sns_topic_arn = Some ''arn:aws:sns:topic''\<rparr>"

definition example_notifier_env :: "rat notifier_env" where
  "example_notifier_env =
     \<lparr>config = example_config,
      interp = example_interp,
      analytics = (\<lambda>n. if n = 7 then Response 500 (Inl (Exn ''JSONDecodeError'' ''Expecting value''))
                        else Response 200
                          (Inr (JObj [(''results'', JArr [JObj [(''views'', JInt 10), (''clicks'', JInt 10)]])]))),
      slack = Response 200 (Inl (Exn ''JSONDecodeError'' ''Expecting value'')),
      notifier_sns_client_outcome = None,
      notifier_sns_publish_outcome = None\<rparr>"

definition example_event :: "rat jval" where
  "example_event =
     JObj [(''report_date'', JStr ''11/04/2026''),
           (''total'', JInt 900),
           (''SAVE10_coupon_active_subscriptions'', JInt 5),
           (''SAVE10_total_trials'', JInt 20),
           (''NO COUPON CODE_coupon_active_subscriptions'', JInt 50),
           (''NO COUPON CODE_total_trials'', JInt 100),
           (''FRIEND_coupon_active_subscriptions'', JInt 7)]"


text \<open>The same run with every analytics call answered with status 200.\<close>

definition example_ok_env :: "rat notifier_env" where
  "example_ok_env =
     example_notifier_env\<lparr>analytics := (\<lambda>n. Response 200
        (Inr (JObj [(''results'', JArr [JObj [(''views'', JInt 10), (''clicks'', JInt 10)]])])))\<rparr>"


text \<open>
  The same run with every analytics call answered with a body, and the eighth call
  answered with status 304 instead of 200.
\<close>

definition not_modified_env :: "rat notifier_env" where
  "not_modified_env =
     example_notifier_env\<lparr>analytics := (\<lambda>n.
        Response (if n = 7 then 304 else 200)
          (Inr (JObj [(''results'', JArr [JObj [(''views'', JInt 10), (''clicks'', JInt 10)]])])))\<rparr>"


section \<open>Proofs: dictionaries and strings\<close>

lemma dict_keys_set: "dict_keys (dict_set k v d) = (if k \<in> set (dict_keys d) then dict_keys d else dict_keys d @ [k])"
  by (simp add: dict_keys_def dict_set_def update_keys)

lemma map_of_dict_set: "map_of (dict_set k v d) = (map_of d)(k \<mapsto> v)"
  by (simp add: dict_set_def update_conv')

lemma distinct_dict_set: "distinct (dict_keys d) \<Longrightarrow> distinct (dict_keys (dict_set k v d))"
  by (simp add: dict_keys_def dict_set_def distinct_update)

lemma endswith_iff: "endswith s suf \<longleftrightarrow> (\<exists>p. s = p @ suf)"
proof
  assume "endswith s suf"
  then have "s = take (length s - length suf) s @ suf"
    by (metis append_take_drop_id endswith_def)
  then show "\<exists>p. s = p @ suf" ..
next
  assume "\<exists>p. s = p @ suf"
  then show "endswith s suf" by (auto simp: endswith_def)
qed

lemma last_chars_eq:
  assumes "c @ s1 = c' @ s2" "n \<le> length s1" "n \<le> length s2"
  shows "take n (rev s1) = take n (rev s2)"
proof -
  from assms(1) have "rev s1 @ rev c = rev s2 @ rev c'"
    by (metis rev_append)
  then have "take n (rev s1 @ rev c) = take n (rev s2 @ rev c')" by simp
  with assms(2,3) show ?thesis by simp
qed

lemma coupon_key_inj:
  assumes "k \<in> set (coupon_keys c)" "k \<in> set (coupon_keys c')"
  shows "c = c'"
  using assms by (auto simp: coupon_keys_def dest: last_chars_eq[where n=5])

lemma no_border:
  assumes "0 < n" "n < 28"
  shows "take n ''_coupon_active_subscriptions'' \<noteq> drop (28 - n) ''_coupon_active_subscriptions''"
proof -
  have "\<forall>n \<in> set [1..<28]. take n ''_coupon_active_subscriptions'' \<noteq> drop (28 - n) ''_coupon_active_subscriptions''"
    by code_simp
  moreover have "n \<in> set [1..<28]" using assms by simp
  ultimately show ?thesis by blast
qed

lemma replace_strip_gen:
  assumes nb: "\<And>n. 0 < n \<Longrightarrow> n < length suf \<Longrightarrow> take n suf \<noteq> drop (length suf - n) suf"
    and ne: "suf \<noteq> []"
  shows "\<not> sublist suf c \<Longrightarrow> py_replace suf [] (c @ suf) = c"
proof (induction c)
  case Nil
  have "py_replace suf [] [] = []" using ne by (simp add: py_replace.simps)
  then show ?case using ne by (subst py_replace.simps) simp
next
  case (Cons x xs)
  define c where "c = x # xs"
  have cne: "c \<noteq> []" by (simp add: c_def)
  have nsubc: "\<not> sublist suf c" using Cons.prems by (simp add: c_def)
  have nsub: "\<not> sublist suf xs" using Cons.prems by (auto simp: sublist_Cons_right)
  have nt: "take (length suf) (c @ suf) \<noteq> suf"
  proof
    assume eq: "take (length suf) (c @ suf) = suf"
    show False
    proof (cases "length suf \<le> length c")
      case True
      then have "take (length suf) c = suf" using eq by simp
      then have "c = [] @ suf @ drop (length suf) c"
        by (metis append_Nil append_take_drop_id)
      then have "sublist suf c" unfolding sublist_def by blast
      with nsubc show False by simp
    next
      case False
      define n where "n = length suf - length c"
      have lc: "0 < length c" using cne by simp
      have n: "0 < n" "n < length suf" using False lc unfolding n_def by arith+
      from eq False have "c @ take n suf = suf" by (simp add: n_def)
      then have "drop (length c) suf = take n suf"
        by (metis append_eq_conv_conj)
      moreover have "length c = length suf - n" using False by (simp add: n_def)
      ultimately have "take n suf = drop (length suf - n) suf" by simp
      with nb[OF n] show False by simp
    qed
  qed
  have "py_replace suf [] (c @ suf) = hd (c @ suf) # py_replace suf [] (tl (c @ suf))"
    using nt ne cne by (subst py_replace.simps) simp
  then have "py_replace suf [] ((x # xs) @ suf) = x # py_replace suf [] (xs @ suf)"
    by (simp add: c_def)
  with Cons.IH[OF nsub] show ?case by simp
qed

lemma suffix_length: "length ''_coupon_active_subscriptions'' = 28"
  by simp

lemma replace_strip:
  assumes "\<not> sublist ''_coupon_active_subscriptions'' c"
  shows "py_replace ''_coupon_active_subscriptions'' [] (c @ ''_coupon_active_subscriptions'') = c"
proof (rule replace_strip_gen[OF _ _ assms])
  fix n :: nat
  assume "0 < n" "n < length ''_coupon_active_subscriptions''"
  then have "0 < n" "n < 28" unfolding suffix_length by blast+
  then show "take n ''_coupon_active_subscriptions'' \<noteq> drop (length ''_coupon_active_subscriptions'' - n) ''_coupon_active_subscriptions''"
    unfolding suffix_length by (rule no_border)
qed simp

lemma flatten_coupon_row_Inr:
  assumes "flatten_coupon_row ops row result = Inr r"
  obtains code active trials convs rate where
    "row = [code, active, trials, convs, rate]"
    "r = dict_set (py_str ops code @ ''_conversion_rate'') (normalize_rate ops rate)
           (dict_set (py_str ops code @ ''_total_conversions'') convs
             (dict_set (py_str ops code @ ''_total_trials'') trials
               (dict_set (py_str ops code @ ''_coupon_active_subscriptions'') active result)))"
  using assms by (auto elim!: flatten_coupon_row.elims)

lemma flatten_coupon_row_keys:
  assumes "flatten_coupon_row ops row result = Inr r"
  shows "set (dict_keys r) = set (dict_keys result) \<union> set (coupon_keys (row_code ops row))"
  using assms
  by (elim flatten_coupon_row_Inr) (auto simp: dict_keys_set coupon_keys_def row_code_def)

lemma flatten_coupon_row_other:
  assumes "flatten_coupon_row ops row result = Inr r" "k \<notin> set (coupon_keys (row_code ops row))"
  shows "map_of r k = map_of result k"
  using assms
  by (elim flatten_coupon_row_Inr) (auto simp: map_of_dict_set coupon_keys_def row_code_def)

lemma flatten_coupons_keys:
  "flatten_coupons ops rows result = Inr result' \<Longrightarrow>
   set (dict_keys result') =
     set (dict_keys result) \<union> (\<Union>row \<in> set rows. set (coupon_keys (row_code ops row)))"
proof (induction rows arbitrary: result)
  case Nil
  then show ?case by simp
next
  case (Cons row rows)
  then obtain r where r: "flatten_coupon_row ops row result = Inr r"
    and rest: "flatten_coupons ops rows r = Inr result'"
    by (auto split: sum.splits)
  show ?case
    using Cons.IH[OF rest] flatten_coupon_row_keys[OF r] by auto
qed

lemma flatten_coupons_other:
  "flatten_coupons ops rows result = Inr result' \<Longrightarrow>
   k \<notin> (\<Union>row \<in> set rows. set (coupon_keys (row_code ops row))) \<Longrightarrow>
   map_of result' k = map_of result k"
proof (induction rows arbitrary: result)
  case Nil
  then show ?case by simp
next
  case (Cons row rows)
  then obtain r where r: "flatten_coupon_row ops row result = Inr r"
    and rest: "flatten_coupons ops rows r = Inr result'"
    by (auto split: sum.splits)
  have "map_of result' k = map_of r k" using Cons.IH[OF rest] Cons.prems(2) by simp
  also have "\<dots> = map_of result k" using flatten_coupon_row_other[OF r] Cons.prems(2) by simp
  finally show ?case .
qed

lemma coupon_keys_disjoint:
  assumes "c \<noteq> c'" "k \<in> set (coupon_keys c)"
  shows "k \<notin> set (coupon_keys c')"
  using assms coupon_key_inj by blast

lemma flatten_coupons_lookup:
  "flatten_coupons ops rows result = Inr result' \<Longrightarrow>
   distinct (map (row_code ops) rows) \<Longrightarrow>
   [code, active, trials, convs, rate] \<in> set rows \<Longrightarrow>
   map_of result' (py_str ops code @ ''_coupon_active_subscriptions'') = Some active \<and>
   map_of result' (py_str ops code @ ''_total_trials'') = Some trials \<and>
   map_of result' (py_str ops code @ ''_total_conversions'') = Some convs \<and>
   map_of result' (py_str ops code @ ''_conversion_rate'') = Some (normalize_rate ops rate)"
proof (induction rows arbitrary: result)
  case Nil
  then show ?case by simp
next
  case (Cons row rows)
  from Cons.prems(1) obtain r where r: "flatten_coupon_row ops row result = Inr r"
    and rest: "flatten_coupons ops rows r = Inr result'"
    by (auto split: sum.splits)
  show ?case
  proof (cases "row = [code, active, trials, convs, rate]")
    case True
    have notin: "k \<notin> (\<Union>row' \<in> set rows. set (coupon_keys (row_code ops row')))"
      if "k \<in> set (coupon_keys (py_str ops code))" for k
    proof
      assume "k \<in> (\<Union>row' \<in> set rows. set (coupon_keys (row_code ops row')))"
      then obtain row' where row': "row' \<in> set rows" "k \<in> set (coupon_keys (row_code ops row'))"
        by blast
      with that have "row_code ops row' = py_str ops code" using coupon_key_inj by blast
      moreover have "row_code ops row = py_str ops code" using True by (simp add: row_code_def)
      ultimately show False using Cons.prems(2) row'(1) by force
    qed
    have same: "map_of result' k = map_of r k" if "k \<in> set (coupon_keys (py_str ops code))" for k
      using flatten_coupons_other[OF rest notin[OF that]] .
    have vals: "map_of r (py_str ops code @ ''_coupon_active_subscriptions'') = Some active"
      "map_of r (py_str ops code @ ''_total_trials'') = Some trials"
      "map_of r (py_str ops code @ ''_total_conversions'') = Some convs"
      "map_of r (py_str ops code @ ''_conversion_rate'') = Some (normalize_rate ops rate)"
      using r True by (auto simp: map_of_dict_set dest: last_chars_eq[where n=5])
    show ?thesis using vals same by (simp add: coupon_keys_def)
  next
    case False
    then have "[code, active, trials, convs, rate] \<in> set rows" using Cons.prems(3) by simp
    moreover have "distinct (map (row_code ops) rows)" using Cons.prems(2) by simp
    ultimately show ?thesis using Cons.IH[OF rest] by blast
  qed
qed

lemma coupon_prefixes_suffix_keys:
  "coupon_prefixes d = map (py_replace ''_coupon_active_subscriptions'' []) (suffix_keys d)"
  by (simp add: coupon_prefixes_def suffix_keys_def)

lemma suffix_keys_set:
  "suffix_keys (dict_set k v d) =
     (if endswith k ''_coupon_active_subscriptions'' \<and> k \<notin> set (dict_keys d)
      then suffix_keys d @ [k] else suffix_keys d)"
  by (simp add: suffix_keys_def dict_keys_set)

lemma suffix_keys_Nil_iff:
  "suffix_keys d = [] \<longleftrightarrow> (\<forall>k \<in> set (dict_keys d). \<not> endswith k ''_coupon_active_subscriptions'')"
  by (auto simp: suffix_keys_def filter_empty_conv)

lemma not_endswith_other:
  "\<not> endswith (c @ ''_total_trials'') ''_coupon_active_subscriptions''"
  "\<not> endswith (c @ ''_total_conversions'') ''_coupon_active_subscriptions''"
  "\<not> endswith (c @ ''_conversion_rate'') ''_coupon_active_subscriptions''"
  "\<not> endswith (c @ ''_total_new_signups'') ''_coupon_active_subscriptions''"
  "\<not> endswith (c @ ''_new_signups_with_coupon'') ''_coupon_active_subscriptions''"
  "\<not> endswith (c @ ''_new_signups_without_coupon'') ''_coupon_active_subscriptions''"
  by (auto simp: endswith_iff dest: last_chars_eq[where n=5])

lemma endswith_own: "endswith (c @ ''_coupon_active_subscriptions'') ''_coupon_active_subscriptions''"
  by (simp add: endswith_iff)

lemma flatten_coupon_row_suffix_keys:
  assumes "flatten_coupon_row ops row result = Inr r"
  shows "suffix_keys r =
     (if row_code ops row @ ''_coupon_active_subscriptions'' \<in> set (dict_keys result)
      then suffix_keys result
      else suffix_keys result @ [row_code ops row @ ''_coupon_active_subscriptions''])"
  using assms
  by (elim flatten_coupon_row_Inr)
     (simp add: suffix_keys_set not_endswith_other endswith_own row_code_def)

lemma flatten_coupons_suffix_keys:
  "flatten_coupons ops rows result = Inr result' \<Longrightarrow>
   distinct (map (row_code ops) rows) \<Longrightarrow>
   \<forall>row \<in> set rows. row_code ops row @ ''_coupon_active_subscriptions'' \<notin> set (dict_keys result) \<Longrightarrow>
   suffix_keys result' =
     suffix_keys result @ map (\<lambda>row. row_code ops row @ ''_coupon_active_subscriptions'') rows"
proof (induction rows arbitrary: result)
  case Nil
  then show ?case by simp
next
  case (Cons row rows)
  from Cons.prems(1) obtain r where r: "flatten_coupon_row ops row result = Inr r"
    and rest: "flatten_coupons ops rows r = Inr result'"
    by (auto split: sum.splits)
  have dist: "distinct (map (row_code ops) rows)" using Cons.prems(2) by simp
  have fresh: "\<forall>row' \<in> set rows.
      row_code ops row' @ ''_coupon_active_subscriptions'' \<notin> set (dict_keys r)"
  proof
    fix row' assume row': "row' \<in> set rows"
    let ?k = "row_code ops row' @ ''_coupon_active_subscriptions''"
    have "row_code ops row \<notin> set (map (row_code ops) rows)" using Cons.prems(2) by simp
    moreover have "row_code ops row' \<in> set (map (row_code ops) rows)" using row' by simp
    ultimately have ne: "row_code ops row' \<noteq> row_code ops row" by metis
    have "?k \<in> set (coupon_keys (row_code ops row'))" by (simp add: coupon_keys_def)
    then have "?k \<notin> set (coupon_keys (row_code ops row))"
      using coupon_keys_disjoint[OF ne] by blast
    moreover have "?k \<notin> set (dict_keys result)" using Cons.prems(3) row' by simp
    ultimately show "?k \<notin> set (dict_keys r)" using flatten_coupon_row_keys[OF r] by simp
  qed
  have "suffix_keys r = suffix_keys result @ [row_code ops row @ ''_coupon_active_subscriptions'']"
    using flatten_coupon_row_suffix_keys[OF r] Cons.prems(3) by simp
  then show ?case using Cons.IH[OF rest dist fresh] by simp
qed

lemma flatten_signup_row_suffix_keys:
  assumes "flatten_signup_row ops row result = Inr r"
  shows "suffix_keys r = suffix_keys result"
  using assms
  by (auto elim!: flatten_signup_row.elims simp: suffix_keys_set not_endswith_other)

lemma flatten_signups_suffix_keys:
  "flatten_signups ops rows result = Inr result' \<Longrightarrow> suffix_keys result' = suffix_keys result"
proof (induction rows arbitrary: result)
  case Nil
  then show ?case by simp
next
  case (Cons row rows)
  from Cons.prems(1) obtain r where r: "flatten_signup_row ops row result = Inr r"
    and rest: "flatten_signups ops rows r = Inr result'"
    by (auto split: sum.splits)
  show ?case using Cons.IH[OF rest] flatten_signup_row_suffix_keys[OF r] by simp
qed

lemma dict_keys_fold_set:
  "set (dict_keys (fold (\<lambda>(k, v). dict_set k v) pairs d)) = set (dict_keys d) \<union> fst ` set pairs"
  by (induction pairs arbitrary: d) (auto simp: dict_keys_set split: prod.splits)

lemma fetch_one_into_keys:
  assumes "fetch_one_into (ResultSet cols rows) result = Inr r"
  shows "set (dict_keys r) \<subseteq> set (dict_keys result) \<union> set cols"
proof -
  from assms obtain row rest where "rows = row # rest"
    and r: "r = dict_update result (dict_of (zip cols row))"
    by (auto simp: fetch_one_into_def split: list.splits)
  have "set (dict_keys (dict_of (zip cols row))) = fst ` set (zip cols row)"
    unfolding dict_of_def dict_keys_fold_set by (simp add: dict_keys_def)
  then have "set (dict_keys (dict_of (zip cols row))) \<subseteq> set cols"
    by (auto dest: set_zip_leftD)
  then show ?thesis
    unfolding r dict_update_def dict_keys_fold_set by (auto simp: dict_keys_def)
qed


section \<open>Proofs: the example run of the extractor\<close>

lemma example_queries: "run_queries example_env = Inr example_result"
  by code_simp

lemma example_open:
  "open_connection example_env initial_state = (initial_state\<lparr>conn := ConnOpen\<rparr>, Inr ())"
  by (simp add: open_connection_def first_missing_def example_env_def example_environ_def
      example_warehouse_def)

lemma example_run:
  "get_data_from_redshift example_env initial_state = (initial_state\<lparr>conn := ConnClosed\<rparr>, Inr example_result)"
proof -
  have "cursor_close_outcome (warehouse example_env) = None"
    "conn_close_outcome (warehouse example_env) = None"
    by (simp_all add: example_env_def example_warehouse_def)
  then show ?thesis
    by (simp add: get_data_from_redshift_def example_open example_queries)
qed

section \<open>Proofs: the extractor\<close>

lemma get_data_Inr:
  assumes "get_data_from_redshift w s = (s', Inr result)"
  shows "run_queries w = Inr result" and "conn s' = ConnClosed"
  using assms
  by (auto simp: get_data_from_redshift_def split: prod.splits sum.splits option.splits)

lemma run_queries_Inr:
  assumes "run_queries w = Inr result"
    and "static_metrics_result (warehouse w) = ResultSet scols srows"
    and "churn_result (warehouse w) = ResultSet hcols hrows"
    and "coupon_result (warehouse w) = ResultSet ccols crows"
  obtains r1 r2 r3 gcols grows where
    "fetch_one_into (ResultSet scols srows) [] = Inr r1"
    "fetch_one_into (ResultSet hcols hrows) r1 = Inr r2"
    "flatten_coupons (builtins w) crows r2 = Inr r3"
    "signup_result (warehouse w) = ResultSet gcols grows"
    "flatten_signups (builtins w) grows r3 = Inr result"
  using assms
  by (auto simp: run_queries_def split: sum.splits query_result.splits)

lemma flatten_signups_other:
  "flatten_signups ops rows result = Inr result' \<Longrightarrow>
   (\<And>p. k \<noteq> p @ ''_total_new_signups'' \<and> k \<noteq> p @ ''_new_signups_with_coupon''
        \<and> k \<noteq> p @ ''_new_signups_without_coupon'') \<Longrightarrow>
   map_of result' k = map_of result k"
proof (induction rows arbitrary: result)
  case Nil
  then show ?case by simp
next
  case (Cons row rows)
  from Cons.prems(1) obtain r where r: "flatten_signup_row ops row result = Inr r"
    and rest: "flatten_signups ops rows r = Inr result'"
    by (auto split: sum.splits)
  have "map_of r k = map_of result k"
    using r Cons.prems(2) by (auto elim!: flatten_signup_row.elims simp: map_of_dict_set)
  then show ?case using Cons.IH[OF rest Cons.prems(2)] by simp
qed

lemma run_queries_coupons:
  assumes "run_queries w = Inr result"
    and "coupon_result (warehouse w) = ResultSet ccols crows"
  obtains r2 r3 gcols grows where
    "flatten_coupons (builtins w) crows r2 = Inr r3"
    "signup_result (warehouse w) = ResultSet gcols grows"
    "flatten_signups (builtins w) grows r3 = Inr result"
  using assms
  by (auto simp: run_queries_def split: sum.splits query_result.splits)

lemma flatten_coupons_rate:
  "flatten_coupons ops rows result = Inr result' \<Longrightarrow> c \<in> row_code ops ` set rows \<Longrightarrow>
   \<exists>row' \<in> set rows. row_code ops row' = c \<and> length row' = 5 \<and>
      map_of result' (c @ ''_conversion_rate'') = Some (normalize_rate ops (row' ! 4))"
proof (induction rows arbitrary: result)
  case Nil
  then show ?case by simp
next
  case (Cons r0 rest)
  from Cons.prems(1) obtain r1 where r1: "flatten_coupon_row ops r0 result = Inr r1"
    and rest: "flatten_coupons ops rest r1 = Inr result'"
    by (auto split: sum.splits)
  let ?k = "c @ ''_conversion_rate''"
  show ?case
  proof (cases "c \<in> row_code ops ` set rest")
    case True
    from Cons.IH[OF rest True] show ?thesis by auto
  next
    case False
    with Cons.prems(2) have c: "c = row_code ops r0" by simp
    from r1 obtain code active trials convs rate where
      r0: "r0 = [code, active, trials, convs, rate]"
      and r1': "r1 = dict_set (py_str ops code @ ''_conversion_rate'') (normalize_rate ops rate)
           (dict_set (py_str ops code @ ''_total_conversions'') convs
             (dict_set (py_str ops code @ ''_total_trials'') trials
               (dict_set (py_str ops code @ ''_coupon_active_subscriptions'') active result)))"
      by (rule flatten_coupon_row_Inr)
    have k: "?k = py_str ops code @ ''_conversion_rate''" by (simp add: c r0 row_code_def)
    have v1: "map_of r1 ?k = Some (normalize_rate ops rate)"
      unfolding k r1' by (simp add: map_of_dict_set)
    have kin: "?k \<in> set (coupon_keys c)" by (simp add: coupon_keys_def)
    have "?k \<notin> (\<Union>row' \<in> set rest. set (coupon_keys (row_code ops row')))"
    proof
      assume "?k \<in> (\<Union>row' \<in> set rest. set (coupon_keys (row_code ops row')))"
      then obtain row' where row': "row' \<in> set rest" "?k \<in> set (coupon_keys (row_code ops row'))"
        by blast
      from coupon_key_inj[OF kin row'(2)] row'(1) False show False by blast
    qed
    from flatten_coupons_other[OF rest this] v1
    have "map_of result' ?k = Some (normalize_rate ops (r0 ! 4))" by (simp add: r0)
    moreover have "length r0 = 5" by (simp add: r0)
    ultimately show ?thesis using c by auto
  qed
qed

lemma normalize_rate_kind:
  "\<not> is_decimal (normalize_rate ops rate)"
  "is_float (normalize_rate ops rate) \<longleftrightarrow> is_decimal rate \<or> is_float rate"
  "\<not> is_decimal rate \<Longrightarrow> normalize_rate ops rate = rate"
  by (cases rate; simp)+

text \<open>
  Claim C3, as the code has it. For every coupon row returned, the value the returned
  mapping holds under \<open>{code}_conversion_rate\<close> is the rate of a returned row with that
  code (of the row itself when the codes are distinct) after line 161: \<open>float(rate)\<close> when
  that rate is a \<open>Decimal\<close>, and the rate itself, unchanged, otherwise. So it is never a
  \<open>Decimal\<close>, and it is a float exactly when that rate is a \<open>Decimal\<close> or a float.
\<close>

theorem conversion_rate_normalized:
  assumes "get_data_from_redshift w s = (s', Inr result)"
    and "coupon_result (warehouse w) = ResultSet ccols crows"
    and "row \<in> set crows"
  shows "\<exists>row' \<in> set crows.
           row_code (builtins w) row' = row_code (builtins w) row
         \<and> length row' = 5
         \<and> (distinct (map (row_code (builtins w)) crows) \<longrightarrow> row' = row)
         \<and> map_of result (row_code (builtins w) row @ ''_conversion_rate'')
              = Some (normalize_rate (builtins w) (row' ! 4))
         \<and> \<not> is_decimal (normalize_rate (builtins w) (row' ! 4))
         \<and> (is_float (normalize_rate (builtins w) (row' ! 4))
               \<longleftrightarrow> is_decimal (row' ! 4) \<or> is_float (row' ! 4))
         \<and> (\<not> is_decimal (row' ! 4) \<longrightarrow> normalize_rate (builtins w) (row' ! 4) = row' ! 4)"
proof -
  from get_data_Inr(1)[OF assms(1)] have rq: "run_queries w = Inr result" .
  from rq assms(2) obtain r2 r3 gcols grows where
    fc: "flatten_coupons (builtins w) crows r2 = Inr r3"
    and fs: "flatten_signups (builtins w) grows r3 = Inr result"
    by (rule run_queries_coupons)
  let ?k = "row_code (builtins w) row @ ''_conversion_rate''"
  have "row_code (builtins w) row \<in> row_code (builtins w) ` set crows"
    using assms(3) by blast
  from flatten_coupons_rate[OF fc this] obtain row' where
    row': "row' \<in> set crows" "row_code (builtins w) row' = row_code (builtins w) row"
      "length row' = 5"
    and v: "map_of r3 ?k = Some (normalize_rate (builtins w) (row' ! 4))"
    by blast
  have "map_of result ?k = map_of r3 ?k"
    by (rule flatten_signups_other[OF fs]) (auto dest: last_chars_eq[where n=5])
  with v have v': "map_of result ?k = Some (normalize_rate (builtins w) (row' ! 4))" by simp
  have d: "row' = row" if "distinct (map (row_code (builtins w)) crows)"
    using that row'(1,2) assms(3) by (meson distinct_map inj_on_eq_iff)
  show ?thesis
    using row' v' d normalize_rate_kind[where ops="builtins w" and rate="row' ! 4"] by blast
qed

theorem conversion_rate_normalized_witness:
  "map_of example_result ''SAVE10_conversion_rate'' = Some (PFloat (2 / 5))"
proof -
  have cr: "coupon_result (warehouse example_env) = ResultSet
        [''coupon_code'', ''coupon_active_subscriptions'', ''total_trials'',
         ''total_conversions'', ''percent_converted''] example_coupon_rows"
    by (simp add: example_env_def example_warehouse_def)
  have b: "builtins example_env = example_builtins" by (simp add: example_env_def)
  have d: "distinct (map (row_code (builtins example_env)) example_coupon_rows)"
    by (simp add: b example_coupon_rows_def row_code_def)
  have m: "[PStr ''SAVE10'', PInt 5, PInt 20, PInt 8, PDecimal (2 / 5)] \<in> set example_coupon_rows"
    by (simp add: example_coupon_rows_def)
  from conversion_rate_normalized[OF example_run cr m] d
  have "map_of example_result
          (row_code (builtins example_env) [PStr ''SAVE10'', PInt 5, PInt 20, PInt 8, PDecimal (2 / 5)]
             @ ''_conversion_rate'')
        = Some (normalize_rate (builtins example_env)
             ([PStr ''SAVE10'', PInt 5, PInt 20, PInt 8, PDecimal (2 / 5)] ! 4))"
    by metis
  then show ?thesis by (simp add: b example_builtins_def row_code_def)
qed

text \<open>
  Claim C3 as stated fails: the conversion is guarded by \<open>isinstance(rate, Decimal)\<close>, so
  a rate that arrives as an integer is stored as that integer, not as a float.
\<close>

theorem integer_rate_stays_integer:
  "flatten_coupons example_builtins [[PStr ''SAVE10'', PInt 5, PInt 20, PInt 8, PInt 1]] []
     = Inr [(''SAVE10_coupon_active_subscriptions'', PInt 5), (''SAVE10_total_trials'', PInt 20),
            (''SAVE10_total_conversions'', PInt 8), (''SAVE10_conversion_rate'', PInt 1)]
   \<and> \<not> is_float (PInt 1 :: (rat, rat) pyval)"
  by (simp add: dict_set_def)

lemma distinct_coupon_keys: "distinct (coupon_keys c)"
  by (simp add: coupon_keys_def)

text \<open>
  Claim C6, as the code has it. The loop over the coupon rows adds to the mapping the four
  keys of each code and no other key; the four keys of a code are different from one
  another; and, the codes being distinct, the mapping afterwards holds under them the
  active, trials and conversions values of the row unchanged and the rate of the row
  after \<open>float(rate) if isinstance(rate, Decimal) else rate\<close>.
\<close>

theorem coupon_row_adds_four_keys:
  assumes "flatten_coupons ops rows result = Inr result'"
    and "distinct (map (row_code ops) rows)"
  shows "set (dict_keys result') =
           set (dict_keys result) \<union> (\<Union>row \<in> set rows. set (coupon_keys (row_code ops row)))
         \<and> (\<forall>row \<in> set rows. distinct (coupon_keys (row_code ops row)))
         \<and> (\<forall>code active trials convs rate.
              [code, active, trials, convs, rate] \<in> set rows \<longrightarrow>
                map_of result' (py_str ops code @ ''_coupon_active_subscriptions'') = Some active \<and>
                map_of result' (py_str ops code @ ''_total_trials'') = Some trials \<and>
                map_of result' (py_str ops code @ ''_total_conversions'') = Some convs \<and>
                map_of result' (py_str ops code @ ''_conversion_rate'')
                  = Some (normalize_rate ops rate))"
proof (intro conjI ballI allI impI)
  show "set (dict_keys result') =
      set (dict_keys result) \<union> (\<Union>row \<in> set rows. set (coupon_keys (row_code ops row)))"
    by (rule flatten_coupons_keys[OF assms(1)])
next
  fix row show "distinct (coupon_keys (row_code ops row))" by (rule distinct_coupon_keys)
next
  fix code active trials convs rate
  assume m: "[code, active, trials, convs, rate] \<in> set rows"
  note l = flatten_coupons_lookup[OF assms(1) assms(2) m]
  show "map_of result' (py_str ops code @ ''_coupon_active_subscriptions'') = Some active"
    using l by simp
  show "map_of result' (py_str ops code @ ''_total_trials'') = Some trials"
    using l by simp
  show "map_of result' (py_str ops code @ ''_total_conversions'') = Some convs"
    using l by simp
  show "map_of result' (py_str ops code @ ''_conversion_rate'') = Some (normalize_rate ops rate)"
    using l by simp
qed

lemma example_flatten:
  "flatten_coupons example_builtins example_coupon_rows [] =
     Inr [(''SAVE10_coupon_active_subscriptions'', PInt 5),
          (''SAVE10_total_trials'', PInt 20),
          (''SAVE10_total_conversions'', PInt 8),
          (''SAVE10_conversion_rate'', PFloat (2 / 5)),
          (''No Coupon Code_coupon_active_subscriptions'', PInt 50),
          (''No Coupon Code_total_trials'', PInt 100),
          (''No Coupon Code_total_conversions'', PInt 60),
          (''No Coupon Code_conversion_rate'', PFloat (3 / 5))]"
  by (simp add: example_coupon_rows_def example_builtins_def dict_set_def)

theorem coupon_row_adds_four_keys_witness:
  "set (dict_keys
     [(''SAVE10_coupon_active_subscriptions'', PInt 5 :: (rat, rat) pyval),
      (''SAVE10_total_trials'', PInt 20),
      (''SAVE10_total_conversions'', PInt 8),
      (''SAVE10_conversion_rate'', PFloat (2 / 5)),
      (''No Coupon Code_coupon_active_subscriptions'', PInt 50),
      (''No Coupon Code_total_trials'', PInt 100),
      (''No Coupon Code_total_conversions'', PInt 60),
      (''No Coupon Code_conversion_rate'', PFloat (3 / 5))])
   = set (coupon_keys ''SAVE10'') \<union> set (coupon_keys ''No Coupon Code'')"
proof -
  have d: "distinct (map (row_code example_builtins) example_coupon_rows)"
    by (simp add: example_coupon_rows_def row_code_def)
  show ?thesis
    using coupon_row_adds_four_keys[OF example_flatten d]
    by (simp add: example_coupon_rows_def row_code_def dict_keys_def)
qed

text \<open>
  Claim C6 as stated fails in its fourth value: for a row whose rate is a \<open>Decimal\<close>, the
  value held under \<open>{code}_conversion_rate\<close> is the float made from it, which is not
  the value of the row.
\<close>

theorem decimal_rate_is_converted:
  "flatten_coupons example_builtins [[PStr ''SAVE10'', PInt 5, PInt 20, PInt 8, PDecimal (2 / 5)]] []
     = Inr [(''SAVE10_coupon_active_subscriptions'', PInt 5), (''SAVE10_total_trials'', PInt 20),
            (''SAVE10_total_conversions'', PInt 8), (''SAVE10_conversion_rate'', PFloat (2 / 5))]
   \<and> (PFloat (2 / 5) :: (rat, rat) pyval) \<noteq> PDecimal (2 / 5)"
  by (simp add: dict_set_def example_builtins_def)

text \<open>
  Claim C7: round trip of flattening and key discovery. When the extractor returns a
  mapping, the coupon rows have distinct codes, no code contains the text
  \<open>_coupon_active_subscriptions\<close>, and no column name of the two fixed queries ends in it,
  then the consumer's discovery, applied to the returned mapping, yields the coupon codes
  that were flattened, each once and in the order of the rows. The column names of the
  two \<open>SELECT\<close> lists of the source satisfy the last condition, as the witness shows.
\<close>

theorem coupon_code_discovery_roundtrip:
  assumes "get_data_from_redshift w s = (s', Inr result)"
    and "static_metrics_result (warehouse w) = ResultSet scols srows"
    and "churn_result (warehouse w) = ResultSet hcols hrows"
    and "coupon_result (warehouse w) = ResultSet ccols crows"
    and "\<forall>c \<in> set (scols @ hcols). \<not> endswith c ''_coupon_active_subscriptions''"
    and "distinct (map (row_code (builtins w)) crows)"
    and "\<forall>row \<in> set crows. \<not> sublist ''_coupon_active_subscriptions'' (row_code (builtins w) row)"
  shows "coupon_prefixes result = map (row_code (builtins w)) crows"
proof -
  from get_data_Inr(1)[OF assms(1)] have rq: "run_queries w = Inr result" .
  from rq assms(2,3,4) obtain r1 r2 r3 gcols grows where
    f1: "fetch_one_into (ResultSet scols srows) [] = Inr r1"
    and f2: "fetch_one_into (ResultSet hcols hrows) r1 = Inr r2"
    and fc: "flatten_coupons (builtins w) crows r2 = Inr r3"
    and fs: "flatten_signups (builtins w) grows r3 = Inr result"
    by (rule run_queries_Inr)
  have "set (dict_keys r1) \<subseteq> set scols"
    using fetch_one_into_keys[OF f1] by (simp add: dict_keys_def)
  then have k2: "set (dict_keys r2) \<subseteq> set (scols @ hcols)"
    using fetch_one_into_keys[OF f2] by auto
  then have none: "\<forall>k \<in> set (dict_keys r2). \<not> endswith k ''_coupon_active_subscriptions''"
    using assms(5) by blast
  then have e2: "suffix_keys r2 = []" by (simp add: suffix_keys_Nil_iff)
  have fresh: "\<forall>row \<in> set crows.
      row_code (builtins w) row @ ''_coupon_active_subscriptions'' \<notin> set (dict_keys r2)"
    using none endswith_own by blast
  have "suffix_keys result = suffix_keys r3"
    by (rule flatten_signups_suffix_keys[OF fs])
  also have "\<dots> = map (\<lambda>row. row_code (builtins w) row @ ''_coupon_active_subscriptions'') crows"
    using flatten_coupons_suffix_keys[OF fc assms(6) fresh] e2 by simp
  finally have "coupon_prefixes result =
      map (\<lambda>row. py_replace ''_coupon_active_subscriptions'' []
             (row_code (builtins w) row @ ''_coupon_active_subscriptions'')) crows"
    by (simp add: coupon_prefixes_suffix_keys comp_def)
  also have "\<dots> = map (row_code (builtins w)) crows"
    using assms(7) by (simp add: replace_strip)
  finally show ?thesis .
qed

theorem coupon_code_discovery_roundtrip_witness:
  "coupon_prefixes example_result = [''SAVE10'', ''No Coupon Code'']"
proof -
  have b: "builtins example_env = example_builtins" by (simp add: example_env_def)
  have q: "static_metrics_result (warehouse example_env) = ResultSet static_cols
        [[PStr ''11/04/2026'', PInt 900, PInt 120, PInt 30, PInt 40, PInt 700, PInt 12,
          PInt 80, PInt 95, PInt 20, PInt 15, PInt 7, PInt 3000, PInt 450]]"
    "churn_result (warehouse example_env) = ResultSet churn_cols
        [[PInt 300, PInt 95, PInt 10, PInt 500, PInt 25, PInt 9, PInt 4, PInt 0, PInt 21,
          PInt 25, PInt 33, PInt 14, PInt 2, PInt 80, PInt 110]]"
    "coupon_result (warehouse example_env) = ResultSet
        [''coupon_code'', ''coupon_active_subscriptions'', ''total_trials'',
         ''total_conversions'', ''percent_converted''] example_coupon_rows"
    by (simp_all add: example_env_def example_warehouse_def)
  have c: "\<forall>c \<in> set (static_cols @ churn_cols). \<not> endswith c ''_coupon_active_subscriptions''"
    by (simp add: static_cols_def churn_cols_def endswith_def)
  have d: "distinct (map (row_code (builtins example_env)) example_coupon_rows)"
    by (simp add: b example_coupon_rows_def row_code_def)
  have n: "\<forall>row \<in> set example_coupon_rows.
      \<not> sublist ''_coupon_active_subscriptions'' (row_code (builtins example_env) row)"
    unfolding b example_coupon_rows_def row_code_def by code_simp
  have "coupon_prefixes example_result
      = map (row_code (builtins example_env)) example_coupon_rows"
    by (rule coupon_code_discovery_roundtrip[OF example_run q c d n])
  also have "\<dots> = [''SAVE10'', ''No Coupon Code'']"
    by (simp add: b example_coupon_rows_def row_code_def)
  finally show ?thesis .
qed

lemma open_connection_conn:
  assumes "open_connection w s = (s1, r)"
  shows "conn s1 = (if connects w then ConnOpen else conn s)"
    and "(\<exists>u. r = Inr u) \<Longrightarrow> connects w"
  using assms
  by (auto simp: open_connection_def connects_def split: option.splits)

text \<open>
  Claim C4, as the code has it. When \<open>get_data_from_redshift\<close> returns its mapping, the
  connection has been closed. When it raises instead (at the connection step, at one of
  the four queries, at the unpacking of a row or at a \<open>close\<close> call), the connection has
  not been closed: it is open if the connection step had opened it, and as it was before
  otherwise.
\<close>

theorem connection_closed_only_on_return:
  assumes "get_data_from_redshift w s = (s', r)"
  shows "(case r of
            Inr result \<Rightarrow> conn s' = ConnClosed
          | Inl e \<Rightarrow> conn s' = (if connects w then ConnOpen else conn s))"
proof -
  obtain s1 r1 where oc: "open_connection w s = (s1, r1)" by (cases "open_connection w s")
  note c = open_connection_conn[OF oc]
  show ?thesis
    using assms oc c(1)
    by (auto simp: get_data_from_redshift_def split: sum.splits option.splits)
qed

lemma failing_run:
  "get_data_from_redshift failing_env initial_state =
     (initial_state\<lparr>conn := ConnOpen\<rparr>,
      Inl (Exn ''OperationalError'' ''server closed the connection unexpectedly''))"
proof -
  have o: "open_connection failing_env initial_state = (initial_state\<lparr>conn := ConnOpen\<rparr>, Inr ())"
    by (simp add: open_connection_def first_missing_def failing_env_def example_env_def
        example_environ_def example_warehouse_def)
  have q: "run_queries failing_env = Inl (Exn ''OperationalError'' ''server closed the connection unexpectedly'')"
    by code_simp
  show ?thesis by (simp add: get_data_from_redshift_def o q)
qed

theorem connection_closed_only_on_return_witness:
  "get_data_from_redshift example_env initial_state
     = (initial_state\<lparr>conn := ConnClosed\<rparr>, Inr example_result)
   \<and> conn (initial_state\<lparr>conn := ConnClosed\<rparr> :: (rat, rat) extractor_state) = ConnClosed"
  using connection_closed_only_on_return[OF example_run] example_run by simp

text \<open>
  Claim C4 as stated fails: there is no \<open>try\<close>/\<open>finally\<close> around the queries, so when the
  coupon query raises the function is left with the connection open.
\<close>

theorem connection_left_open_on_query_error:
  "get_data_from_redshift failing_env initial_state =
     (initial_state\<lparr>conn := ConnOpen\<rparr>,
      Inl (Exn ''OperationalError'' ''server closed the connection unexpectedly''))
   \<and> conn (initial_state\<lparr>conn := ConnOpen\<rparr> :: (rat, rat) extractor_state) \<noteq> ConnClosed"
  using failing_run by simp

text \<open>
  Claim C2, as the code has it. When the body of the handler fails with \<open>e\<close> and the
  publish call of the failure notification fails with \<open>e'\<close>, both failures are logged
  and the exception that leaves the handler is \<open>e'\<close>, the one of the notification:
  \<open>send_sns_notification\<close> raises it again after logging, and the handler's own \<open>raise\<close> is
  not reached.
\<close>

theorem notification_failure_propagates:
  assumes "handler_body w s = (s1, Inl e)"
    and "sns_client_outcome w = None"
    and "environ w ''SNS_TOPIC_ARN'' = Some arn"
    and "sns_publish_outcome w = Some e'"
  shows "lambda_handler w s =
           (log_msg ERROR (''Failed to send SNS notification: '' @ exn_str e')
              (log_msg ERROR (''Lambda daily_bot_stats_extract failed: '' @ exn_str e) s1),
            Inl e')"
  using assms
  by (simp add: lambda_handler_def send_sns_notification_def environ_get_def)

lemma unreachable_body:
  "handler_body unreachable_env initial_state =
     (initial_state, Inl (Exn ''RuntimeError'' ''Error connecting to Redshift: could not connect to server''))"
  by (simp add: handler_body_def get_data_from_redshift_def open_connection_def first_missing_def
      unreachable_env_def example_env_def example_environ_def example_warehouse_def exn_str_def)

theorem notification_failure_propagates_witness:
  "lambda_handler unreachable_env initial_state =
     (\<lparr>conn = NotConnected,
       log = [(ERROR, ''Lambda daily_bot_stats_extract failed: Error connecting to Redshift: could not connect to server''),
              (ERROR, ''Failed to send SNS notification: topic not found'')],
       invoked = [], published = []\<rparr>,
      Inl (Exn ''ClientError'' ''topic not found''))"
proof -
  have a: "sns_client_outcome unreachable_env = None"
    "environ unreachable_env ''SNS_TOPIC_ARN'' = Some ''arn:aws:sns:topic''"
    "sns_publish_outcome unreachable_env = Some (Exn ''ClientError'' ''topic not found'')"
    by (simp_all add: unreachable_env_def example_env_def example_environ_def)
  show ?thesis
    using notification_failure_propagates[OF unreachable_body a]
    by (simp add: log_msg_def initial_state_def exn_str_def)
qed

text \<open>
  Claim C2 as stated fails: the warehouse cannot be reached, so the body fails with a
  \<open>RuntimeError\<close>; the publish call fails too, and the handler ends with the exception of
  the publish call, not with the \<open>RuntimeError\<close>.
\<close>

theorem original_exception_masked:
  "snd (handler_body unreachable_env initial_state)
     = Inl (Exn ''RuntimeError'' ''Error connecting to Redshift: could not connect to server'')
   \<and> snd (lambda_handler unreachable_env initial_state) = Inl (Exn ''ClientError'' ''topic not found'')
   \<and> snd (lambda_handler unreachable_env initial_state) \<noteq> snd (handler_body unreachable_env initial_state)"
proof -
  have a: "sns_client_outcome unreachable_env = None"
    "environ_get (environ unreachable_env) ''SNS_TOPIC_ARN'' = Inr ''arn:aws:sns:topic''"
    "sns_publish_outcome unreachable_env = Some (Exn ''ClientError'' ''topic not found'')"
    by (simp_all add: unreachable_env_def example_env_def example_environ_def environ_get_def)
  show ?thesis
    by (simp add: lambda_handler_def unreachable_body send_sns_notification_def a)
qed

section \<open>Proofs: the churn query\<close>

lemma count_distinct_card: "count_distinct vs = card {x. Some x \<in> set vs}"
proof -
  have "set (concat (map (\<lambda>v. case v of None \<Rightarrow> [] | Some x \<Rightarrow> [x]) vs)) = {x. Some x \<in> set vs}"
    by (auto split: option.splits)
  then show ?thesis
    by (simp add: count_distinct_def length_remdups_card_conv)
qed

lemma case_when_Some: "case_when c v = Some x \<longleftrightarrow> c \<and> v = Some x"
  by (simp add: case_when_def)

lemma count_case_when:
  "count_distinct (map (\<lambda>r. case_when (c r) (email r)) rows)
     = card {e. \<exists>r \<in> set rows. c r \<and> email r = Some e}"
proof -
  have "Some x \<in> set (map (\<lambda>r. case_when (c r) (email r)) rows)
      \<longleftrightarrow> (\<exists>r \<in> set rows. c r \<and> email r = Some x)" for x
  proof -
    have "Some x \<in> set (map (\<lambda>r. case_when (c r) (email r)) rows)
        \<longleftrightarrow> (\<exists>r \<in> set rows. case_when (c r) (email r) = Some x)"
      by (simp add: image_iff eq_commute)
    then show ?thesis by (simp add: case_when_Some)
  qed
  then show ?thesis by (simp add: count_distinct_card)
qed

lemma emails_where_filter:
  assumes "\<And>r. email r \<noteq> None \<Longrightarrow> (W r \<and> c r) \<longleftrightarrow> (\<exists>d. status_date r = Some d \<and> P d)"
  shows "{e. \<exists>r \<in> set (filter W tbl). c r \<and> email r = Some e} = emails_where P tbl"
proof -
  have "(\<exists>r \<in> set (filter W tbl). c r \<and> email r = Some e)
      \<longleftrightarrow> (\<exists>r \<in> set tbl. email r = Some e \<and> (\<exists>d. status_date r = Some d \<and> P d))" for e
  proof -
    have "(\<exists>r \<in> set (filter W tbl). c r \<and> email r = Some e)
        \<longleftrightarrow> (\<exists>r \<in> set tbl. email r = Some e \<and> (W r \<and> c r))"
      by auto
    also have "\<dots> \<longleftrightarrow> (\<exists>r \<in> set tbl. email r = Some e \<and> (\<exists>d. status_date r = Some d \<and> P d))"
      using assms by (metis option.distinct(1))
    finally show ?thesis .
  qed
  then show ?thesis by (simp add: emails_where_def)
qed

lemma on_or_after_iff: "on_or_after col t \<longleftrightarrow> (\<exists>d. col = Some d \<and> date_le t d)"
  by (cases col) (simp_all add: on_or_after_def)

lemma before_iff: "before col t \<longleftrightarrow> (\<exists>d. col = Some d \<and> date_lt d t)"
  by (cases col) (simp_all add: before_def)

text \<open>
  Claim C1, as the code has it. The past-due figure of \<open>churn_total\<close> counts the
  distinct emails whose status date is on or after the current date minus 7 days; the one
  of \<open>churn_last_week\<close> counts those whose status date is in the 7 days before the current
  date; the one of \<open>churn_last_month\<close> counts those whose status date is in the month
  before the current date: its trailing window is one month, not 7 days.
\<close>

theorem past_due_windows:
  "churn_past_due (churn_total cur tbl) = card (emails_where (\<lambda>d. date_le (minus_days 7 cur) d) tbl)
   \<and> churn_past_due (churn_last_week cur tbl)
       = card (emails_where (\<lambda>d. date_le (minus_days 7 cur) d \<and> date_lt d cur) tbl)
   \<and> churn_past_due (churn_last_month cur tbl)
       = card (emails_where (\<lambda>d. date_le (minus_month cur) d \<and> date_lt d cur) tbl)"
proof (intro conjI)
  have "{e. \<exists>r \<in> set (filter (\<lambda>r. email r \<noteq> None) tbl).
            on_or_after (status_date r) (minus_days 7 cur) \<and> email r = Some e}
      = emails_where (\<lambda>d. date_le (minus_days 7 cur) d) tbl"
    by (rule emails_where_filter) (simp add: on_or_after_iff)
  then show "churn_past_due (churn_total cur tbl)
      = card (emails_where (\<lambda>d. date_le (minus_days 7 cur) d) tbl)"
    by (simp add: churn_total_def Let_def count_case_when)
next
  have "{e. \<exists>r \<in> set (filter (\<lambda>r. email r \<noteq> None
                \<and> on_or_after (status_date r) (minus_days 7 cur)
                \<and> before (status_date r) cur) tbl).
            on_or_after (status_date r) (minus_days 7 cur) \<and> email r = Some e}
      = emails_where (\<lambda>d. date_le (minus_days 7 cur) d \<and> date_lt d cur) tbl"
    by (rule emails_where_filter) (auto simp: on_or_after_iff before_iff simp del: split_paired_Ex)
  then show "churn_past_due (churn_last_week cur tbl)
       = card (emails_where (\<lambda>d. date_le (minus_days 7 cur) d \<and> date_lt d cur) tbl)"
    by (simp add: churn_last_week_def Let_def count_case_when)
next
  have "{e. \<exists>r \<in> set (filter (\<lambda>r. email r \<noteq> None
                \<and> on_or_after (status_date r) (minus_month cur)
                \<and> before (status_date r) cur) tbl).
            on_or_after (status_date r) (minus_month cur) \<and> email r = Some e}
      = emails_where (\<lambda>d. date_le (minus_month cur) d \<and> date_lt d cur) tbl"
    by (rule emails_where_filter) (auto simp: on_or_after_iff before_iff simp del: split_paired_Ex)
  then show "churn_past_due (churn_last_month cur tbl)
       = card (emails_where (\<lambda>d. date_le (minus_month cur) d \<and> date_lt d cur) tbl)"
    by (simp add: churn_last_month_def Let_def count_case_when)
qed

lemma example_churn:
  "churn_query (2026, 11, 5) example_churn_table
     = (map PInt [1, 2, 0, 2, 1,  1, 0, 0, 1, 1,  1, 1, 0, 1, 2] :: (rat, rat) pyval list)"
  by code_simp

lemma example_past_due:
  "churn_past_due (churn_total (2026, 11, 5) example_churn_table) = 1"
  "churn_past_due (churn_last_week (2026, 11, 5) example_churn_table) = 1"
  "churn_past_due (churn_last_month (2026, 11, 5) example_churn_table) = 2"
  by code_simp+

theorem past_due_windows_witness:
  "card (emails_where (\<lambda>d. date_le (minus_days 7 (2026, 11, 5)) d) example_churn_table) = 1
   \<and> card (emails_where (\<lambda>d. date_le (minus_days 7 (2026, 11, 5)) d \<and> date_lt d (2026, 11, 5))
            example_churn_table) = 1
   \<and> card (emails_where (\<lambda>d. date_le (minus_month (2026, 11, 5)) d \<and> date_lt d (2026, 11, 5))
            example_churn_table) = 2"
proof -
  note w = past_due_windows[of "(2026, 11, 5)" example_churn_table, unfolded example_past_due]
  from w show ?thesis by metis
qed

lemma example_minus_days: "minus_days 7 (2026, 11, 5) = (2026, 10, 29)"
  by code_simp

text \<open>
  Claim C1 as stated fails for the third CTE. On 5 November 2026, with the example table,
  one email has a status date in the 7 days before the current date, but the past-due
  figure of \<open>churn_last_month\<close> is 2: it also counts the email whose status date is
  20 October.
\<close>

theorem month_past_due_uses_month_window:
  "churn_past_due (churn_last_month (2026, 11, 5) example_churn_table) = 2
   \<and> emails_where (\<lambda>d. date_le (minus_days 7 (2026, 11, 5)) d \<and> date_lt d (2026, 11, 5))
        example_churn_table = {''bob@example.com''}"
proof
  show "churn_past_due (churn_last_month (2026, 11, 5) example_churn_table) = 2"
    by (rule example_past_due)
  show "emails_where (\<lambda>d. date_le (minus_days 7 (2026, 11, 5)) d \<and> date_lt d (2026, 11, 5))
        example_churn_table = {''bob@example.com''}"
    unfolding example_minus_days
    by (auto simp: emails_where_def example_churn_table_def date_lt_def)
qed

section \<open>Proofs: the report\<close>

text \<open>
  Claim C5. The docstring of \<open>build_message\<close> says the message is built from the event
  and the dataframes, and the comment on line 180 names the analytics summary; the body
  reads neither dataframe, so the text is the same whatever the analytics results are.
\<close>

theorem build_message_ignores_dataframes:
  "build_message ops event df_clicks df_views = build_message ops event df_clicks' df_views'"
  by (simp add: build_message_def)

lemma py_sum_from_ints:
  "py_sum_from ops (JInt a) (map JInt xs) = Inr (JInt (a + sum_list xs))"
proof (induction xs arbitrary: a)
  case Nil
  then show ?case by simp
next
  case (Cons x xs)
  have "py_add ops (JInt a) (JInt x) = Inr (JInt (a + x))" by (simp add: py_add_def)
  then show ?case using Cons.IH[of "a + x"] by (simp add: add.assoc)
qed

lemma dict_get_integer_valued:
  assumes "integer_valued ev k"
  shows "dict_get ev k (JInt 0) = JInt (metric ev k)"
  using assms
  by (auto simp: integer_valued_def dict_get_def metric_def split: option.splits jval.splits)

lemma py_sum_metrics:
  assumes "\<forall>p \<in> set ps. integer_valued ev (p @ sfx)"
  shows "py_sum ops (map (\<lambda>p. dict_get ev (p @ sfx) (JInt 0)) ps)
           = Inr (JInt (sum_list (map (\<lambda>p. metric ev (p @ sfx)) ps)))"
proof -
  have "map (\<lambda>p. dict_get ev (p @ sfx) (JInt 0)) ps = map (\<lambda>p. JInt (metric ev (p @ sfx))) ps"
    using assms by (simp add: dict_get_integer_valued)
  also have "\<dots> = map JInt (map (\<lambda>p. metric ev (p @ sfx)) ps)"
    by simp
  finally show ?thesis
    by (simp only: py_sum_def py_sum_from_ints) simp
qed

lemma py_lower_nonempty: "py_lower k = ''no coupon code'' \<Longrightarrow> k \<noteq> []"
  by (auto simp: py_lower_def)

lemma build_message_integer_counts:
  assumes "integer_counts ev"
  shows "build_message ops (JObj ev) df_clicks df_views =
     Inr (report_text ops ev
            (sum_list (map (\<lambda>p. metric ev (p @ ''_coupon_active_subscriptions'')) (coupon_prefixes ev)))
            (case find (\<lambda>p. py_lower p = ''no coupon code'') (coupon_prefixes ev) of
               None \<Rightarrow> 0 | Some k \<Rightarrow> metric ev (k @ ''_total_trials''))
            (sum_list (map (\<lambda>p. metric ev (p @ ''_total_trials''))
               (filter (\<lambda>p. py_lower p \<noteq> ''no coupon code'') (coupon_prefixes ev)))))"
proof -
  let ?ps = "coupon_prefixes ev"
  from assms have iv: "\<forall>p \<in> set ?ps. integer_valued ev (p @ ''_coupon_active_subscriptions'')"
    "\<forall>p \<in> set ?ps. integer_valued ev (p @ ''_total_trials'')"
    by (simp_all add: integer_counts_def list_all_iff)
  have s1: "py_sum ops (map (\<lambda>p. dict_get ev (p @ ''_coupon_active_subscriptions'') (JInt 0)) ?ps)
      = Inr (JInt (sum_list (map (\<lambda>p. metric ev (p @ ''_coupon_active_subscriptions'')) ?ps)))"
    by (rule py_sum_metrics[OF iv(1)])
  have s2: "py_sum ops (map (\<lambda>p. dict_get ev (p @ ''_total_trials'') (JInt 0))
                (filter (\<lambda>p. py_lower p \<noteq> ''no coupon code'') ?ps))
      = Inr (JInt (sum_list (map (\<lambda>p. metric ev (p @ ''_total_trials''))
                (filter (\<lambda>p. py_lower p \<noteq> ''no coupon code'') ?ps))))"
    by (rule py_sum_metrics) (use iv(2) in auto)
  have w: "(case find (\<lambda>p. py_lower p = ''no coupon code'') ?ps of
              None \<Rightarrow> JInt 0
            | Some k \<Rightarrow> if k \<noteq> [] then dict_get ev (k @ ''_total_trials'') (JInt 0) else JInt 0)
      = JInt (case find (\<lambda>p. py_lower p = ''no coupon code'') ?ps of
                None \<Rightarrow> 0 | Some k \<Rightarrow> metric ev (k @ ''_total_trials''))"
  proof (cases "find (\<lambda>p. py_lower p = ''no coupon code'') ?ps")
    case None
    then show ?thesis by simp
  next
    case (Some k)
    then have "k \<in> set ?ps" "py_lower k = ''no coupon code''"
      by (auto simp: find_Some_iff)
    then show ?thesis
      using Some iv(2) py_lower_nonempty by (simp add: dict_get_integer_valued)
  qed
  show ?thesis
    unfolding build_message_def Let_def
    by (simp only: jval.case s1 s2 w sum.case report_text_def jstr.simps)
qed

text \<open>
  Claim C9, as the code has it. For every event mapping with integer counts (every value
  that is added up is an integer or absent), \<open>build_message\<close> does not raise and returns
  the six lines in their fixed order. Every key that is looked up and is absent
  contributes its default: 0 for a figure and for the lifetime total, the empty text for
  the report date.
\<close>

theorem build_message_defaults:
  assumes "integer_counts ev"
  shows "build_message ops (JObj ev) df_clicks df_views =
           Inr (report_text ops ev
             (sum_list (map (\<lambda>p. metric ev (p @ ''_coupon_active_subscriptions'')) (coupon_prefixes ev)))
             (case find (\<lambda>p. py_lower p = ''no coupon code'') (coupon_prefixes ev) of
                None \<Rightarrow> 0 | Some k \<Rightarrow> metric ev (k @ ''_total_trials''))
             (sum_list (map (\<lambda>p. metric ev (p @ ''_total_trials''))
                (filter (\<lambda>p. py_lower p \<noteq> ''no coupon code'') (coupon_prefixes ev)))))
         \<and> (\<forall>k. map_of ev k = None \<longrightarrow> metric ev k = 0)
         \<and> (map_of ev ''total'' = None \<longrightarrow> jstr ops (dict_get ev ''total'' (JInt 0)) = ''0'')
         \<and> (map_of ev ''report_date'' = None \<longrightarrow> jstr ops (dict_get ev ''report_date'' (JStr [])) = [])"
proof (intro conjI allI impI)
  show "build_message ops (JObj ev) df_clicks df_views =
           Inr (report_text ops ev
             (sum_list (map (\<lambda>p. metric ev (p @ ''_coupon_active_subscriptions'')) (coupon_prefixes ev)))
             (case find (\<lambda>p. py_lower p = ''no coupon code'') (coupon_prefixes ev) of
                None \<Rightarrow> 0 | Some k \<Rightarrow> metric ev (k @ ''_total_trials''))
             (sum_list (map (\<lambda>p. metric ev (p @ ''_total_trials''))
                (filter (\<lambda>p. py_lower p \<noteq> ''no coupon code'') (coupon_prefixes ev)))))"
    by (rule build_message_integer_counts[OF assms])
next
  fix k assume "map_of ev k = None"
  then show "metric ev k = 0" by (simp add: metric_def)
next
  assume "map_of ev ''total'' = None"
  then show "jstr ops (dict_get ev ''total'' (JInt 0)) = ''0''"
    by (simp add: dict_get_def str_of_int_def digit_char_def)
next
  assume "map_of ev ''report_date'' = None"
  then show "jstr ops (dict_get ev ''report_date'' (JStr [])) = []"
    by (simp add: dict_get_def)
qed

theorem build_message_defaults_witness:
  "build_message example_interp (JObj [(''FRIEND_coupon_active_subscriptions'', JInt 7)]) [] []
     = Inr (join_lines
        [''Stats for '',
         bullet @ ''  Lifetime user total: 0'',
         bullet @ ''  Active snapshot stats :'',
         ''   '' @ circle @ ''  Total Active Users: 7'',
         ''   '' @ circle @ ''  Total Active Trial Users without a coupon: 0'',
         ''   '' @ circle @ ''  Total Active Trial Users with a coupon: 0''])"
proof -
  let ?ev = "[(''FRIEND_coupon_active_subscriptions'', JInt 7 :: rat jval)]"
  have ic: "integer_counts ?ev" by code_simp
  have "build_message example_interp (JObj ?ev) [] [] =
           Inr (report_text example_interp ?ev
             (sum_list (map (\<lambda>p. metric ?ev (p @ ''_coupon_active_subscriptions'')) (coupon_prefixes ?ev)))
             (case find (\<lambda>p. py_lower p = ''no coupon code'') (coupon_prefixes ?ev) of
                None \<Rightarrow> 0 | Some k \<Rightarrow> metric ?ev (k @ ''_total_trials''))
             (sum_list (map (\<lambda>p. metric ?ev (p @ ''_total_trials''))
                (filter (\<lambda>p. py_lower p \<noteq> ''no coupon code'') (coupon_prefixes ?ev)))))"
    using build_message_defaults[OF ic] by blast
  also have "\<dots> = Inr (join_lines
        [''Stats for '',
         bullet @ ''  Lifetime user total: 0'',
         bullet @ ''  Active snapshot stats :'',
         ''   '' @ circle @ ''  Total Active Users: 7'',
         ''   '' @ circle @ ''  Total Active Trial Users without a coupon: 0'',
         ''   '' @ circle @ ''  Total Active Trial Users with a coupon: 0''])"
    by code_simp
  finally show ?thesis .
qed

text \<open>
  Claim C9 as stated fails: a value that is present and is not a number makes the sum
  raise. Here the active-subscriptions count of a coupon is JSON \<open>null\<close>.
\<close>

theorem build_message_raises_on_null_count:
  "build_message example_interp (JObj [(''A_coupon_active_subscriptions'', JNull)]) [] []
     = Inl (Exn ''TypeError'' ''unsupported operand type(s) for +'')"
  by code_simp

text \<open>
  Claim C10: a prefix counts as without a coupon exactly when its lowercase form is
  \<open>no coupon code\<close>, and every other prefix is summed into the with-coupon figure.
  The code misses it when two discovered prefixes have that lowercase form. Line 175
  leaves both out of the with-coupon sum, as the claim says, but line 173 takes only the
  first of them with \<open>next\<close>: here \<open>No Coupon Code\<close> has 5 trials and \<open>NO COUPON CODE\<close>
  has 7, and the report shows 5 without a coupon and 0 with a coupon, where the claim
  gives 12 without a coupon. The 7 trials of the second prefix are in neither figure.
\<close>

theorem second_no_coupon_variant_not_counted:
  "build_message example_interp
     (JObj [(''No Coupon Code_coupon_active_subscriptions'', JInt 1),
            (''NO COUPON CODE_coupon_active_subscriptions'', JInt 1),
            (''No Coupon Code_total_trials'', JInt 5),
            (''NO COUPON CODE_total_trials'', JInt 7)]) [] []
     = Inr (join_lines
        [''Stats for '',
         bullet @ ''  Lifetime user total: 0'',
         bullet @ ''  Active snapshot stats :'',
         ''   '' @ circle @ ''  Total Active Users: 2'',
         ''   '' @ circle @ ''  Total Active Trial Users without a coupon: 5'',
         ''   '' @ circle @ ''  Total Active Trial Users with a coupon: 0''])
   \<and> py_lower ''No Coupon Code'' = ''no coupon code''
   \<and> py_lower ''NO COUPON CODE'' = ''no coupon code''"
  by code_simp

section \<open>Proofs: the analytics calls\<close>

lemma post_analytics_state:
  assumes "post_analytics w req s = (s1, r)"
  shows "calls s1 = calls s + 1" and "slack_posts s1 = slack_posts s"
  using assms
  by (auto simp: post_analytics_def Let_def record_effect_def slack_posts_def
      split: http_outcome.splits option.splits)

lemma post_analytics_Inr:
  assumes "post_analytics w req s = (s1, Inr j)"
  shows "http_ok (analytics w (calls s))"
  using assms
  by (auto simp: post_analytics_def Let_def split: http_outcome.splits option.splits)

lemma views_loop_slack:
  "views_loop w cells results s = (s', r) \<Longrightarrow> slack_posts s' = slack_posts s"
proof (induction w cells results s rule: views_loop.induct)
  case (1 w results s)
  then show ?case by simp
next
  case (2 w seg_name seg_id page_name page_id cells results s)
  obtain s1 r1 where p: "post_analytics w (PageEvents seg_id page_id) s = (s1, r1)"
    by (cases "post_analytics w (PageEvents seg_id page_id) s")
  note st = post_analytics_state(2)[OF p]
  show ?case
  proof (cases r1)
    case (Inl e)
    with "2.prems" p st show ?thesis by simp
  next
    case (Inr j)
    show ?thesis
    proof (cases "views_of_body (interp w) j")
      case (Inl e)
      with "2.prems" p Inr st show ?thesis by simp
    next
      case v: (Inr total_views)
      have "views_loop w cells (results @ [(seg_name, page_name, total_views)]) s1 = (s', r)"
        using "2.prems" p Inr v by simp
      from "2.IH"[OF p[symmetric] Inr v this] st show ?thesis by simp
    qed
  qed
qed

lemma views_loop_Inr:
  "views_loop w cells results s = (s', Inr r) \<Longrightarrow>
   calls s' = calls s + length cells \<and> (\<forall>i < length cells. http_ok (analytics w (calls s + i)))"
proof (induction w cells results s rule: views_loop.induct)
  case (1 w results s)
  then show ?case by simp
next
  case (2 w seg_name seg_id page_name page_id cells results s)
  obtain s1 r1 where p: "post_analytics w (PageEvents seg_id page_id) s = (s1, r1)"
    by (cases "post_analytics w (PageEvents seg_id page_id) s")
  from "2.prems" p obtain j where r1: "r1 = Inr j" by (cases r1) auto
  from "2.prems" p r1 obtain total_views where v: "views_of_body (interp w) j = Inr total_views"
    by (cases "views_of_body (interp w) j") auto
  have rest: "views_loop w cells (results @ [(seg_name, page_name, total_views)]) s1 = (s', Inr r)"
    using "2.prems" p r1 v by simp
  note ih = "2.IH"[OF p[symmetric] r1 v rest]
  have c1: "calls s1 = calls s + 1" by (rule post_analytics_state(1)[OF p])
  have ok0: "http_ok (analytics w (calls s))" using post_analytics_Inr p r1 by blast
  have "http_ok (analytics w (calls s + i))" if "i < length (((seg_name, seg_id), (page_name, page_id)) # cells)" for i
  proof (cases i)
    case 0
    then show ?thesis using ok0 by simp
  next
    case (Suc k)
    then have "k < length cells" using that by simp
    then have "http_ok (analytics w (calls s1 + k))" using ih by blast
    then show ?thesis using c1 Suc by (simp add: add.commute add.left_commute)
  qed
  then show ?case using ih c1 by simp
qed

lemma clicks_for_feature_state:
  assumes "clicks_for_feature w seg_id fid s = (s1, r)"
  shows "calls s1 = calls s + 1" and "slack_posts s1 = slack_posts s"
    and "(\<exists>v. r = Inr v) \<Longrightarrow> http_ok (analytics w (calls s))"
proof -
  obtain s0 r0 where p: "post_analytics w (FeatureEvents seg_id fid) s = (s0, r0)"
    by (cases "post_analytics w (FeatureEvents seg_id fid) s")
  have s: "s1 = s0" using assms p by (auto simp: clicks_for_feature_def split: sum.splits)
  show "calls s1 = calls s + 1" using post_analytics_state(1)[OF p] s by simp
  show "slack_posts s1 = slack_posts s" using post_analytics_state(2)[OF p] s by simp
  show "http_ok (analytics w (calls s))" if "\<exists>v. r = Inr v"
  proof -
    from that assms p obtain j where "r0 = Inr j"
      by (cases r0) (auto simp: clicks_for_feature_def)
    with p post_analytics_Inr show ?thesis by blast
  qed
qed

lemma clicks_sum_slack:
  "clicks_sum w seg_id feats acc s = (s', r) \<Longrightarrow> slack_posts s' = slack_posts s"
proof (induction feats arbitrary: acc s)
  case Nil
  then show ?case by simp
next
  case (Cons fid feats)
  obtain s1 r1 where c: "clicks_for_feature w seg_id fid s = (s1, r1)"
    by (cases "clicks_for_feature w seg_id fid s")
  note st = clicks_for_feature_state(2)[OF c]
  show ?case
  proof (cases r1)
    case (Inl e)
    with Cons.prems c st show ?thesis by simp
  next
    case (Inr v)
    show ?thesis
    proof (cases "py_add (interp w) acc v")
      case (Inl e)
      with Cons.prems c Inr st show ?thesis by simp
    next
      case a: (Inr acc')
      have "clicks_sum w seg_id feats acc' s1 = (s', r)" using Cons.prems c Inr a by simp
      from Cons.IH[OF this] st show ?thesis by simp
    qed
  qed
qed

lemma clicks_sum_Inr:
  "clicks_sum w seg_id feats acc s = (s', Inr r) \<Longrightarrow>
   calls s' = calls s + length feats \<and> (\<forall>i < length feats. http_ok (analytics w (calls s + i)))"
proof (induction feats arbitrary: acc s)
  case Nil
  then show ?case by simp
next
  case (Cons fid feats)
  obtain s1 r1 where c: "clicks_for_feature w seg_id fid s = (s1, r1)"
    by (cases "clicks_for_feature w seg_id fid s")
  from Cons.prems c obtain v where r1: "r1 = Inr v" by (cases r1) auto
  from Cons.prems c r1 obtain acc' where a: "py_add (interp w) acc v = Inr acc'"
    by (cases "py_add (interp w) acc v") auto
  have rest: "clicks_sum w seg_id feats acc' s1 = (s', Inr r)" using Cons.prems c r1 a by simp
  note ih = Cons.IH[OF rest]
  have c1: "calls s1 = calls s + 1" by (rule clicks_for_feature_state(1)[OF c])
  have ok0: "http_ok (analytics w (calls s))"
    using clicks_for_feature_state(3)[OF c] r1 by blast
  have "http_ok (analytics w (calls s + i))" if "i < length (fid # feats)" for i
  proof (cases i)
    case 0
    then show ?thesis using ok0 by simp
  next
    case (Suc k)
    then have "k < length feats" using that by simp
    then have "http_ok (analytics w (calls s1 + k))" using ih by blast
    then show ?thesis using c1 Suc by (simp add: add.commute add.left_commute)
  qed
  then show ?case using ih c1 by simp
qed

text \<open>The number of analytics calls the loop over segments and feature groups makes.\<close>

lemma clicks_loop_slack:
  "clicks_loop w cells rows s = (s', r) \<Longrightarrow> slack_posts s' = slack_posts s"
proof (induction w cells rows s rule: clicks_loop.induct)
  case (1 w rows s)
  then show ?case by simp
next
  case (2 w seg_name seg_id grp_name feats cells rows s)
  obtain s1 r1 where c: "clicks_sum w seg_id feats (JInt 0) s = (s1, r1)"
    by (cases "clicks_sum w seg_id feats (JInt 0) s")
  note st = clicks_sum_slack[OF c]
  show ?case
  proof (cases r1)
    case (Inl e)
    with "2.prems" c st show ?thesis by simp
  next
    case (Inr total_clicks)
    have "clicks_loop w cells (rows @ [(seg_name, grp_name, total_clicks)]) s1 = (s', r)"
      using "2.prems" c Inr by simp
    from "2.IH"[OF c[symmetric] Inr this] st show ?thesis by simp
  qed
qed

lemma clicks_loop_Inr:
  "clicks_loop w cells rows s = (s', Inr r) \<Longrightarrow>
   calls s' = calls s + sum_list (map (\<lambda>cell. length (snd (snd cell))) cells)
   \<and> (\<forall>i < sum_list (map (\<lambda>cell. length (snd (snd cell))) cells).
         http_ok (analytics w (calls s + i)))"
proof (induction w cells rows s rule: clicks_loop.induct)
  case (1 w rows s)
  then show ?case by simp
next
  case (2 w seg_name seg_id grp_name feats cells rows s)
  obtain s1 r1 where c: "clicks_sum w seg_id feats (JInt 0) s = (s1, r1)"
    by (cases "clicks_sum w seg_id feats (JInt 0) s")
  from "2.prems" c obtain total_clicks where r1: "r1 = Inr total_clicks" by (cases r1) auto
  have rest: "clicks_loop w cells (rows @ [(seg_name, grp_name, total_clicks)]) s1 = (s', Inr r)"
    using "2.prems" c r1 by simp
  note ih = "2.IH"[OF c[symmetric] r1 rest]
  note cs = clicks_sum_Inr[OF c[unfolded r1]]
  let ?n = "sum_list (map (\<lambda>cell. length (snd (snd cell))) cells)"
  have "http_ok (analytics w (calls s + i))" if "i < length feats + ?n" for i
  proof (cases "i < length feats")
    case True
    then show ?thesis using cs by blast
  next
    case False
    then have "i - length feats < ?n" using that by arith
    then have "http_ok (analytics w (calls s1 + (i - length feats)))" using ih by blast
    moreover have "calls s1 + (i - length feats) = calls s + i" using cs False by simp
    ultimately show ?thesis by simp
  qed
  then show ?case using ih cs by simp
qed

lemma grid_sizes:
  "length (List.product (SEGMENTS cfg) (PAGES cfg)) = 6"
  "sum_list (map (\<lambda>cell. length (snd (snd cell))) (List.product (SEGMENTS cfg) (FEATURE_GROUPS cfg))) = 8"
  by (simp_all add: SEGMENTS_def PAGES_def FEATURE_GROUPS_def)

lemma extract_data_slack:
  assumes "extract_data w s = (s', r)"
  shows "slack_posts s' = slack_posts s"
proof -
  obtain s1 r1 where v: "views_loop w (List.product (SEGMENTS (config w)) (PAGES (config w))) [] s = (s1, r1)"
    by (cases "views_loop w (List.product (SEGMENTS (config w)) (PAGES (config w))) [] s")
  note sv = views_loop_slack[OF v]
  show ?thesis
  proof (cases r1)
    case (Inl e)
    with assms v sv show ?thesis by (simp add: extract_data_def)
  next
    case (Inr results)
    obtain s2 r2 where c: "clicks_loop w (List.product (SEGMENTS (config w)) (FEATURE_GROUPS (config w))) [] s1 = (s2, r2)"
      by (cases "clicks_loop w (List.product (SEGMENTS (config w)) (FEATURE_GROUPS (config w))) [] s1")
    have "s' = s2" using assms v Inr c by (auto simp: extract_data_def split: sum.splits)
    with clicks_loop_slack[OF c] sv show ?thesis by simp
  qed
qed

lemma extract_data_Inr:
  assumes "extract_data w s = (s', Inr dfs)"
  shows "\<forall>i < 14. http_ok (analytics w (calls s + i))"
proof -
  obtain s1 r1 where v: "views_loop w (List.product (SEGMENTS (config w)) (PAGES (config w))) [] s = (s1, r1)"
    by (cases "views_loop w (List.product (SEGMENTS (config w)) (PAGES (config w))) [] s")
  from assms v obtain results where r1: "r1 = Inr results"
    by (cases r1) (auto simp: extract_data_def)
  obtain s2 r2 where c: "clicks_loop w (List.product (SEGMENTS (config w)) (FEATURE_GROUPS (config w))) [] s1 = (s2, r2)"
    by (cases "clicks_loop w (List.product (SEGMENTS (config w)) (FEATURE_GROUPS (config w))) [] s1")
  from assms v r1 c obtain rows where r2: "r2 = Inr rows"
    by (cases r2) (auto simp: extract_data_def)
  note a = views_loop_Inr[OF v[unfolded r1], unfolded grid_sizes]
  note b = clicks_loop_Inr[OF c[unfolded r2], unfolded grid_sizes]
  show ?thesis
  proof (intro allI impI)
    fix i :: nat assume i: "i < 14"
    show "http_ok (analytics w (calls s + i))"
    proof (cases "i < 6")
      case True
      then show ?thesis using a by blast
    next
      case False
      then have "i - 6 < 8" using i by arith
      then have "http_ok (analytics w (calls s1 + (i - 6)))" using b by blast
      moreover have "calls s1 + (i - 6) = calls s + i" using a False by simp
      ultimately show ?thesis by simp
    qed
  qed
qed

lemma send_sns_notification_notify_slack:
  assumes "send_sns_notification_notify w m s = (s', r)"
  shows "slack_posts s' = slack_posts s"
  using assms
  by (auto simp: send_sns_notification_notify_def record_effect_def slack_posts_def
      split: option.splits)

text \<open>
  Claim C8, as the code has it. If any of the fourteen analytics calls of a run (six
  page-view queries, then eight per-feature click queries) is answered with an error
  status, 400 to 599, which are the responses that \<open>raise_for_status\<close> rejects, the
  handler ends with an exception and the run posts nothing to the chat webhook.
\<close>

theorem analytics_failure_publishes_nothing:
  assumes "n < 14"
    and "analytics w (calls s + n) = Response st body"
    and "400 \<le> st" and "st < 600"
  shows "\<exists>s' e. lambda_handler_notify w event s = (s', Inl e) \<and> slack_posts s' = slack_posts s"
proof -
  have bad: "\<not> http_ok (analytics w (calls s + n))"
    using assms(2,3,4) by (simp add: raise_for_status_def)
  obtain s1 r1 where hb: "handler_body_notify w event s = (s1, r1)"
    by (cases "handler_body_notify w event s")
  have "\<exists>e. r1 = Inl e \<and> slack_posts s1 = slack_posts s"
  proof (cases "case event of JStr text \<Rightarrow> json_loads (interp w) text | _ \<Rightarrow> Inr event")
    case (Inl e)
    with hb show ?thesis by (auto simp: handler_body_notify_def)
  next
    case (Inr payload)
    obtain s2 r2 where ed: "extract_data w s = (s2, r2)" by (cases "extract_data w s")
    have "\<exists>e. r2 = Inl e"
    proof (cases r2)
      case (Inl e)
      then show ?thesis by simp
    next
      case (Inr dfs)
      with ed extract_data_Inr assms(1) have "http_ok (analytics w (calls s + n))" by blast
      with bad show ?thesis by simp
    qed
    then obtain e where e: "r2 = Inl e" by blast
    have "handler_body_notify w event s = (s2, Inl e)"
      using Inr ed e by (simp add: handler_body_notify_def)
    with hb extract_data_slack[OF ed] show ?thesis by auto
  qed
  then obtain e where r1: "r1 = Inl e" and sl: "slack_posts s1 = slack_posts s" by blast
  let ?m = "''Lambda job revii_stats_notify failed: '' @ exn_str e"
  obtain s3 r3 where sn: "send_sns_notification_notify w ?m (record_effect (Logged ERROR ?m) s1) = (s3, r3)"
    by (cases "send_sns_notification_notify w ?m (record_effect (Logged ERROR ?m) s1)")
  have "slack_posts s3 = slack_posts (record_effect (Logged ERROR ?m) s1)"
    by (rule send_sns_notification_notify_slack[OF sn])
  also have "\<dots> = slack_posts s" using sl by (simp add: record_effect_def slack_posts_def)
  finally have s3: "slack_posts s3 = slack_posts s" .
  have "\<exists>e'. lambda_handler_notify w event s = (s3, Inl e')"
    using hb r1 sn by (cases r3) (simp_all add: lambda_handler_notify_def Let_def)
  with s3 show ?thesis by blast
qed

theorem analytics_failure_publishes_nothing_witness:
  "\<exists>s' e. lambda_handler_notify example_notifier_env example_event notifier_initial_state = (s', Inl e)
          \<and> slack_posts s' = []"
proof -
  have a: "analytics example_notifier_env (calls notifier_initial_state + 7)
      = Response 500 (Inl (Exn ''JSONDecodeError'' ''Expecting value''))"
    by (simp add: example_notifier_env_def notifier_initial_state_def)
  have "slack_posts notifier_initial_state = []"
    by (simp add: slack_posts_def notifier_initial_state_def)
  then show ?thesis
    using analytics_failure_publishes_nothing[OF _ a, of example_event] by simp
qed

text \<open>
  Claim C8 as stated fails for a response that is not a success and not an error status
  either: \<open>raise_for_status\<close> is the only check of the status and it lets 304 pass. With
  the eighth analytics call answered by status 304 and a JSON body, the run goes on,
  posts the report to the chat webhook and returns status 200.
\<close>

theorem not_modified_response_still_publishes:
  "analytics not_modified_env 7
     = Response 304 (Inr (JObj [(''results'', JArr [JObj [(''views'', JInt 10), (''clicks'', JInt 10)]])]))
   \<and> slack_posts (fst (lambda_handler_notify not_modified_env example_event notifier_initial_state))
     = [SlackPost (join_lines
        [''Stats for 11/04/2026'',
         bullet @ ''  Lifetime user total: 900'',
         bullet @ ''  Active snapshot stats :'',
         ''   '' @ circle @ ''  Total Active Users: 62'',
         ''   '' @ circle @ ''  Total Active Trial Users without a coupon: 100'',
         ''   '' @ circle @ ''  Total Active Trial Users with a coupon: 20''])]
   \<and> snd (lambda_handler_notify not_modified_env example_event notifier_initial_state)
     = Inr (200, message_sent_body)"
  by code_simp

section \<open>Proofs: two example runs of the notifier\<close>

text \<open>
  With every analytics call answered, the run makes its fourteen calls in the order of
  the two grids and posts the report once. With the eighth call answered by status 500,
  the run stops there, reports the failure to the topic and raises the error.
\<close>

lemma example_ok_extract:
  "extract_data example_ok_env notifier_initial_state =
     (\<lparr>calls = 14,
       trace = [AnalyticsPost (PageEvents ''segA'' ''web''),
                AnalyticsPost (PageEvents ''segA'' ''ios''),
                AnalyticsPost (PageEvents ''segA'' ''android''),
                AnalyticsPost (PageEvents ''segB'' ''web''),
                AnalyticsPost (PageEvents ''segB'' ''ios''),
                AnalyticsPost (PageEvents ''segB'' ''android''),
                AnalyticsPost (FeatureEvents ''segA'' ''roleplay''),
                AnalyticsPost (FeatureEvents ''segA'' ''auto1''),
                AnalyticsPost (FeatureEvents ''segA'' ''auto2''),
                AnalyticsPost (FeatureEvents ''segA'' ''auto3''),
                AnalyticsPost (FeatureEvents ''segB'' ''roleplay''),
                AnalyticsPost (FeatureEvents ''segB'' ''auto1''),
                AnalyticsPost (FeatureEvents ''segB'' ''auto2''),
                AnalyticsPost (FeatureEvents ''segB'' ''auto3'')]\<rparr>,
      Inr ([(''Segment-A'', ''Roleplay'', JInt 10), (''Segment-A'', ''Automation'', JInt 30),
            (''Segment-B'', ''Roleplay'', JInt 10), (''Segment-B'', ''Automation'', JInt 30)],
           [(''Segment-A'', ''Web'', JInt 10), (''Segment-A'', ''iOS'', JInt 10),
            (''Segment-A'', ''Android'', JInt 10), (''Segment-B'', ''Web'', JInt 10),
            (''Segment-B'', ''iOS'', JInt 10), (''Segment-B'', ''Android'', JInt 10)]))"
  by code_simp

lemma example_ok_run:
  "slack_posts (fst (lambda_handler_notify example_ok_env example_event notifier_initial_state))
     = [SlackPost (join_lines
        [''Stats for 11/04/2026'',
         bullet @ ''  Lifetime user total: 900'',
         bullet @ ''  Active snapshot stats :'',
         ''   '' @ circle @ ''  Total Active Users: 62'',
         ''   '' @ circle @ ''  Total Active Trial Users without a coupon: 100'',
         ''   '' @ circle @ ''  Total Active Trial Users with a coupon: 20''])]
   \<and> snd (lambda_handler_notify example_ok_env example_event notifier_initial_state)
     = Inr (200, message_sent_body)"
  by code_simp

lemma example_failed_run:
  "lambda_handler_notify example_notifier_env example_event notifier_initial_state =
     (\<lparr>calls = 8,
       trace = [AnalyticsPost (PageEvents ''segA'' ''web''),
                AnalyticsPost (PageEvents ''segA'' ''ios''),
                AnalyticsPost (PageEvents ''segA'' ''android''),
                AnalyticsPost (PageEvents ''segB'' ''web''),
                AnalyticsPost (PageEvents ''segB'' ''ios''),
                AnalyticsPost (PageEvents ''segB'' ''android''),
                AnalyticsPost (FeatureEvents ''segA'' ''roleplay''),
                AnalyticsPost (FeatureEvents ''segA'' ''auto1''),
                Logged ERROR ''Lambda job revii_stats_notify failed: 500 Error'',
                SnsPublish (Some ''arn:aws:sns:topic'') ''Slack Notification Error''
                  ''Lambda job revii_stats_notify failed: 500 Error'',
                Logged INFO ''SNS notification sent successfully.'']\<rparr>,
      Inl (Exn ''HTTPError'' ''500 Error''))"
  by code_simp

end
